theory Spec2Isabelle
  imports Main "HOL-Library.Word"
begin

unbundle bit_operations_syntax

section \<open>Machine types and header constants\<close>

text \<open>
  C \<^verbatim>\<open>int\<close> is a 32-bit two's complement word: \<open>sint\<close> reads it, \<open><s\<close> compares
  it signed. \<^verbatim>\<open>uint16_t\<close> and \<^verbatim>\<open>uint8_t\<close> are 16- and 8-bit words; the integer
  promotion of an unsigned narrow value to \<^verbatim>\<open>int\<close> is \<open>ucast\<close> (zero extension),
  the conversion of an \<^verbatim>\<open>int\<close> to \<^verbatim>\<open>uint16_t\<close> is \<open>ucast\<close> too (truncation).
\<close>

type_synonym c_int = "32 word"
type_synonym uint32_t = "32 word"
type_synonym uint16_t = "16 word"
type_synonym uint8_t = "8 word"

text \<open>
  The constants of \<^verbatim>\<open>bluetooth/hci.h\<close>, \<^verbatim>\<open>bluetooth/hci_lib.h\<close> and \<^verbatim>\<open>hcid.h\<close>
  that \<^verbatim>\<open>plugins/hciops.c\<close> uses. The headers are not among the sources, so the
  constants are a parameter of every function that uses one.
\<close>

record hci_defs =
  HCI_EVENT_PKT :: c_int
  EVT_STACK_INTERNAL :: c_int
  HCI_EVENT_HDR_SIZE :: nat
  EVT_SI_DEVICE :: c_int
  HCI_DEV_REG :: c_int
  HCI_DEV_UNREG :: c_int
  HCI_DEV_UP :: c_int
  HCI_DEV_DOWN :: c_int
  HCI_UP :: nat
  HCI_RAW :: nat
  HCID_SET_NAME :: nat
  HCID_SET_CLASS :: nat
  HCID_SET_PAGETO :: nat
  SCAN_INQUIRY :: uint8_t

text \<open>
  The labels of the \<^verbatim>\<open>switch\<close> of \<^verbatim>\<open>device_event\<close> are pairwise distinct (a C
  compiler rejects a duplicate case label).
\<close>

definition hci_defs_ok :: "hci_defs \<Rightarrow> bool" where
  "hci_defs_ok K = distinct [HCI_DEV_REG K, HCI_DEV_UNREG K, HCI_DEV_UP K, HCI_DEV_DOWN K]"

text \<open>The values the Linux headers of BlueZ give these names.\<close>

definition bluez_defs :: hci_defs where
  "bluez_defs = \<lparr> HCI_EVENT_PKT = 0x04, EVT_STACK_INTERNAL = 0xFD, HCI_EVENT_HDR_SIZE = 2,
     EVT_SI_DEVICE = 0x01, HCI_DEV_REG = 1, HCI_DEV_UNREG = 2, HCI_DEV_UP = 3,
     HCI_DEV_DOWN = 4, HCI_UP = 0, HCI_RAW = 8, HCID_SET_NAME = 1, HCID_SET_CLASS = 2,
     HCID_SET_PAGETO = 5, SCAN_INQUIRY = 0x01 \<rparr>"

text \<open>\<^verbatim>\<open>EINVAL\<close> of \<^verbatim>\<open>errno.h\<close> and \<^verbatim>\<open>sizeof(pid_t)\<close>, as on Linux.\<close>

definition EINVAL :: c_int where
  "EINVAL = 22"

definition sizeof_pid_t :: nat where
  "sizeof_pid_t = 4"

text \<open>\<^verbatim>\<open>ENETDOWN\<close> and \<^verbatim>\<open>EALREADY\<close> of \<^verbatim>\<open>errno.h\<close>, as on Linux.\<close>

definition ENETDOWN :: c_int where
  "ENETDOWN = 100"

definition EALREADY :: c_int where
  "EALREADY = 114"

section \<open>Adapters, the environment and the process state\<close>

text \<open>
  \<^verbatim>\<open>struct btd_adapter\<close> is opaque to \<^verbatim>\<open>manager.c\<close>: it reads the device id through
  \<^verbatim>\<open>adapter_get_dev_id\<close> (a \<^verbatim>\<open>uint16_t\<close>) and the object path through
  \<^verbatim>\<open>adapter_get_path\<close>. The record keeps the device id and the up flag handed to
  \<^verbatim>\<open>adapter_create\<close>; a path is stood for by the adapter it is the path of.
\<close>

record btd_adapter =
  adapter_dev_id :: uint16_t
  adapter_devup :: bool

definition adapter_get_dev_id :: "btd_adapter \<Rightarrow> uint16_t" where
  "adapter_get_dev_id adapter = adapter_dev_id adapter"

record hci_dev_info =
  flags :: uint32_t
  bdaddr :: "48 word"

record main_options =
  opt_flags :: c_int
  opt_name :: "string option"
  opt_class :: uint32_t
  opt_scan :: uint8_t
  opt_pageto :: uint16_t
  opt_link_mode :: uint16_t
  opt_link_policy :: uint16_t

text \<open>
  The three \<^verbatim>\<open>ioctl\<close> requests of \<^verbatim>\<open>init_device\<close>: the two link settings pass a
  \<^verbatim>\<open>struct hci_dev_req\<close> (a 16-bit device id and a 32-bit option), \<^verbatim>\<open>HCIDEVUP\<close> passes the device id.
\<close>

datatype ioctl_req =
    HCISETLINKMODE uint16_t uint32_t
  | HCISETLINKPOL uint16_t uint32_t
  | HCIDEVUP c_int

text \<open>
  What the functions outside \<^verbatim>\<open>manager.c\<close> and \<^verbatim>\<open>hciops.c\<close> answer during one
  handler invocation: the kernel (\<^verbatim>\<open>fork\<close>, \<^verbatim>\<open>read\<close>, \<^verbatim>\<open>waitpid\<close>, and in the child
  \<^verbatim>\<open>ioctl\<close> with the \<^verbatim>\<open>errno\<close> it leaves, \<^verbatim>\<open>getpid\<close>, \<^verbatim>\<open>write\<close>), the HCI library
  (\<^verbatim>\<open>hci_devinfo\<close>, \<^verbatim>\<open>hci_open_dev\<close>, \<^verbatim>\<open>hci_get_route\<close>), the storage and the
  adapter object (\<^verbatim>\<open>adapter.c\<close>).
\<close>

record env =
  fork_ret :: c_int
  sys_ioctl :: "ioctl_req \<Rightarrow> c_int \<times> c_int"
  getpid_ret :: c_int
  write_ret :: int
  hci_devinfo :: "c_int \<Rightarrow> hci_dev_info option"
  hci_open_dev :: "c_int \<Rightarrow> c_int"
  main_opts :: main_options
  read_local_class :: "48 word \<Rightarrow> (uint8_t \<times> uint8_t \<times> uint8_t) option"
  get_service_classes :: "48 word \<Rightarrow> uint8_t"
  adapter_create_ok :: "c_int \<Rightarrow> bool \<Rightarrow> bool"
  adapter_start :: "btd_adapter \<Rightarrow> c_int"
  adapter_stop :: "btd_adapter \<Rightarrow> c_int"
  adapter_is_ready :: "btd_adapter \<Rightarrow> bool"
  hci_get_route :: c_int
  read_ret :: int
  read_pid :: c_int
  waitpid_ret :: "c_int \<Rightarrow> c_int \<Rightarrow> c_int"

datatype hci_cmd =
    Change_local_name string c_int
  | Write_class_of_dev uint8_t uint8_t uint8_t
  | Write_page_timeout uint16_t
  | Write_default_link_policy uint16_t

text \<open>
  Every call that leaves the two files and every log line is recorded, in program order,
  in the trace of the state. \<open>Call_device_event\<close> records the entry into
  \<^verbatim>\<open>device_event\<close> with its two arguments.
\<close>

datatype effect =
    Log_info string
  | Log_error string
  | Log_debug string
  | Sys_fork c_int
  | Sys_atexit
  | Sys_ioctl c_int ioctl_req
  | Sys_write c_int nat
  | Sys_read c_int nat
  | Sys_waitpid c_int c_int
  | Call_hci_devinfo c_int
  | Call_hci_open_dev c_int
  | Call_hci_close_dev c_int
  | Call_hci_send_cmd c_int hci_cmd
  | Call_hci_get_route
  | Start_security_manager c_int
  | Stop_security_manager c_int
  | Adapter_create c_int bool
  | Adapter_start btd_adapter
  | Adapter_stop btd_adapter
  | Adapter_remove btd_adapter
  | Emit_Adapters_property "btd_adapter option list"
  | Signal_AdapterRemoved btd_adapter
  | Signal_DefaultAdapterChanged btd_adapter
  | Call_device_event c_int c_int

text \<open>
  The statics of \<^verbatim>\<open>manager.c\<close>: \<^verbatim>\<open>adapters\<close> (a \<^verbatim>\<open>GSList\<close>, in list order) and
  \<^verbatim>\<open>default_adapter_id\<close> (initially \<open>-1\<close>), and the trace.
\<close>

record manager =
  adapters :: "btd_adapter list"
  default_adapter_id :: c_int
  trace :: "effect list"

definition manager_init :: manager where
  "manager_init = \<lparr> adapters = [], default_adapter_id = - 1, trace = [] \<rparr>"

definition emit :: "effect \<Rightarrow> manager \<Rightarrow> manager" where
  "emit e s = s\<lparr> trace := trace s @ [e] \<rparr>"

text \<open>
  A function of \<^verbatim>\<open>hciops.c\<close> on the path of a device event either returns to its
  caller, with a value and the state, or ends the process with \<^verbatim>\<open>exit\<close> (the child
  that \<^verbatim>\<open>init_device\<close> forks), with the exit status and the state of that process.
\<close>

datatype 'a outcome = Return 'a manager | Exit c_int manager

fun final_state :: "'a outcome \<Rightarrow> manager" where
  "final_state (Return r s) = s"
| "final_state (Exit status s) = s"

section \<open>The registry: manager.c\<close>

text \<open>
  \<^verbatim>\<open>adapter_id_cmp\<close> converts the searched id to \<^verbatim>\<open>uint16_t\<close> before it compares;
  \<open>True\<close> is the C result 0 (a match).
\<close>

definition adapter_id_cmp :: "btd_adapter \<Rightarrow> c_int \<Rightarrow> bool" where
  "adapter_id_cmp adapter b = (adapter_get_dev_id adapter = (ucast b :: uint16_t))"

text \<open>\<^verbatim>\<open>g_slist_find_custom\<close> returns the first element the comparison matches.\<close>

definition manager_find_adapter_by_id :: "manager \<Rightarrow> c_int \<Rightarrow> btd_adapter option" where
  "manager_find_adapter_by_id s id' = find (\<lambda>a. adapter_id_cmp a id') (adapters s)"

definition manager_update_adapters :: "env \<Rightarrow> manager \<Rightarrow> manager" where
  "manager_update_adapters E s =
     emit (Emit_Adapters_property
       (map (\<lambda>a. if adapter_is_ready E a then Some a else None) (adapters s))) s"

definition manager_set_default_adapter :: "c_int \<Rightarrow> manager \<Rightarrow> manager" where
  "manager_set_default_adapter id' s =
     (let s1 = s\<lparr> default_adapter_id := id' \<rparr> in
      case manager_find_adapter_by_id s1 id' of
        None \<Rightarrow> s1
      | Some adapter \<Rightarrow> emit (Signal_DefaultAdapterChanged adapter) s1)"

text \<open>
  \<^verbatim>\<open>g_slist_remove\<close> removes the first cell that holds the pointer; the adapter
  always comes from \<^verbatim>\<open>manager_find_adapter_by_id\<close>, the first cell with its id.
\<close>

definition manager_remove_adapter :: "env \<Rightarrow> btd_adapter \<Rightarrow> manager \<Rightarrow> manager" where
  "manager_remove_adapter E adapter s =
     (let dev = adapter_get_dev_id adapter;
          s1 = s\<lparr> adapters := remove1 adapter (adapters s) \<rparr>;
          s2 = manager_update_adapters E s1;
          s3 = (if default_adapter_id s2 = ucast dev \<or> default_adapter_id s2 <s 0
                then manager_set_default_adapter (hci_get_route E) (emit Call_hci_get_route s2)
                else s2);
          s4 = emit (Signal_AdapterRemoved adapter) s3
      in emit (Adapter_remove adapter) s4)"

text \<open>
  Modelled from the spec: \<^verbatim>\<open>adapter_create\<close> (\<^verbatim>\<open>adapter.c\<close>, not among the sources)
  creates the adapter of the device id with the kernel-reported up flag, or fails and
  returns \<^verbatim>\<open>NULL\<close>; whether it fails is the environment's answer.
\<close>

definition adapter_create :: "env \<Rightarrow> c_int \<Rightarrow> bool \<Rightarrow> btd_adapter option" where
  "adapter_create E id' up =
     (if adapter_create_ok E id' up then Some \<lparr> adapter_dev_id = ucast id', adapter_devup = up \<rparr> else None)"

definition manager_register_adapter :: "env \<Rightarrow> c_int \<Rightarrow> bool \<Rightarrow> manager \<Rightarrow> c_int \<times> manager" where
  "manager_register_adapter E id' up s =
     (case manager_find_adapter_by_id s id' of
        Some _ \<Rightarrow> (- 1, emit (Log_error ''Unable to register adapter: hci%d already exist'') s)
      | None \<Rightarrow>
          (let s1 = emit (Adapter_create id' up) s in
           case adapter_create E id' up of
             None \<Rightarrow> (- 1, s1)
           | Some adapter \<Rightarrow> (0, s1\<lparr> adapters := adapters s1 @ [adapter] \<rparr>)))"

definition manager_unregister_adapter :: "env \<Rightarrow> c_int \<Rightarrow> manager \<Rightarrow> c_int \<times> manager" where
  "manager_unregister_adapter E id' s =
     (case manager_find_adapter_by_id s id' of
        None \<Rightarrow> (- 1, s)
      | Some adapter \<Rightarrow>
          (0, manager_remove_adapter E adapter (emit (Log_info ''Unregister path: %s'') s)))"

definition manager_start_adapter :: "env \<Rightarrow> c_int \<Rightarrow> manager \<Rightarrow> c_int \<times> manager" where
  "manager_start_adapter E id' s =
     (case manager_find_adapter_by_id s id' of
        None \<Rightarrow> (- EINVAL, emit (Log_error ''Getting device data failed: hci%d'') s)
      | Some adapter \<Rightarrow>
          (let s1 = emit (Adapter_start adapter) s;
               ret = adapter_start E adapter
           in if ret <s 0 then (ret, s1)
              else (ret, if default_adapter_id s1 <s 0
                         then manager_set_default_adapter id' s1 else s1)))"

definition manager_stop_adapter :: "env \<Rightarrow> c_int \<Rightarrow> manager \<Rightarrow> c_int \<times> manager" where
  "manager_stop_adapter E id' s =
     (case manager_find_adapter_by_id s id' of
        None \<Rightarrow> (- EINVAL, emit (Log_error ''Getting device data failed: hci%d'') s)
      | Some adapter \<Rightarrow> (adapter_stop E adapter, emit (Adapter_stop adapter) s))"

definition manager_get_default_adapter :: "manager \<Rightarrow> c_int" where
  "manager_get_default_adapter s = default_adapter_id s"

section \<open>Kernel events: plugins/hciops.c\<close>

text \<open>
  Modelled from the spec: \<^verbatim>\<open>hci_test_bit\<close> (\<^verbatim>\<open>bluetooth/hci_lib.h\<close>, not among the
  sources) tells whether flag \<open>nr\<close> of the device flags is set.
\<close>

definition hci_test_bit :: "nat \<Rightarrow> uint32_t \<Rightarrow> bool" where
  "hci_test_bit nr fl = bit fl nr"

text \<open>
  \<^verbatim>\<open>child_exit\<close>: one \<^verbatim>\<open>read\<close> of \<^verbatim>\<open>sizeof(pid_t)\<close> bytes from the completion
  pipe, then \<^verbatim>\<open>waitpid(child_pid, &status, 0)\<close>. The third argument of
  \<^verbatim>\<open>waitpid\<close> is the literal 0.
\<close>

definition child_exit :: "env \<Rightarrow> c_int \<Rightarrow> manager \<Rightarrow> bool \<times> manager" where
  "child_exit E fd s =
     (let s1 = emit (Sys_read fd sizeof_pid_t) s in
      if read_ret E \<noteq> int sizeof_pid_t
      then (True, emit (Log_error ''child_exit: unable to read child pid from pipe'') s1)
      else
        (let child_pid = read_pid E;
             s2 = emit (Sys_waitpid child_pid 0) s1
         in if waitpid_ret E child_pid 0 \<noteq> child_pid
            then (True, emit (Log_error ''waitpid(%d) failed'') s2)
            else (True, emit (Log_debug ''child %d exited'') s2)))"

text \<open>
  \<^verbatim>\<open>configure_device\<close>: the per-up configuration. \<^verbatim>\<open>expand_name\<close> is not
  among the sources: the name command carries the template and the device id it is
  expanded with. \<^verbatim>\<open>memcpy(cp.dev_class, &class, 3)\<close> copies the three low bytes of
  \<^verbatim>\<open>htobl(main_opts.class)\<close>, least significant first.
\<close>

definition configure_device :: "env \<Rightarrow> hci_defs \<Rightarrow> c_int \<Rightarrow> manager \<Rightarrow> manager" where
  "configure_device E K dev_id s =
     (let s0 = emit (Call_hci_devinfo dev_id) s in
      case hci_devinfo E dev_id of
        None \<Rightarrow> s0
      | Some di \<Rightarrow>
          if hci_test_bit (HCI_RAW K) (flags di) then s0
          else
            (let dd = hci_open_dev E dev_id;
                 s1 = emit (Call_hci_open_dev dev_id) s0
             in if dd <s 0 then emit (Log_error ''Can't open device hci%d: %s (%d)'') s1
                else
                  (let opts = main_opts E;
                       s2 = (case opt_name opts of
                               Some name \<Rightarrow>
                                 if opt_flags opts AND push_bit (HCID_SET_NAME K) 1 \<noteq> 0
                                 then emit (Call_hci_send_cmd dd (Change_local_name name dev_id)) s1
                                 else s1
                             | None \<Rightarrow> s1);
                       s3 = (if opt_flags opts AND push_bit (HCID_SET_CLASS K) 1 \<noteq> 0
                             then
                               (case read_local_class E (bdaddr di) of
                                  None \<Rightarrow>
                                    emit (Call_hci_send_cmd dd
                                      (Write_class_of_dev (ucast (opt_class opts))
                                         (ucast (drop_bit 8 (opt_class opts)))
                                         (ucast (drop_bit 16 (opt_class opts))))) s2
                                | Some (c0, c1, c2) \<Rightarrow>
                                    emit (Call_hci_send_cmd dd
                                      (Write_class_of_dev c0
                                         (if opt_scan opts AND SCAN_INQUIRY K = 0
                                          then c1 AND 0xdf else c1)
                                         (get_service_classes E (bdaddr di)))) s2)
                             else s2);
                       s4 = (if opt_flags opts AND push_bit (HCID_SET_PAGETO K) 1 \<noteq> 0
                             then emit (Call_hci_send_cmd dd (Write_page_timeout (opt_pageto opts))) s3
                             else s3);
                       s5 = emit (Call_hci_send_cmd dd
                              (Write_default_link_policy (opt_link_policy opts))) s4
                   in emit (Call_hci_close_dev dd) s5)))"

text \<open>
  \<^verbatim>\<open>at_child_exit\<close>, the \<^verbatim>\<open>atexit\<close> handler of the child: it writes the child's
  own pid into the completion pipe. \<^verbatim>\<open>exit\<close> in the child runs it and ends the
  process.
\<close>

definition at_child_exit :: "env \<Rightarrow> manager \<Rightarrow> manager" where
  "at_child_exit E s =
     (let pid = getpid_ret E;
          s1 = emit (Sys_write pid sizeof_pid_t) s
      in if write_ret E \<noteq> int sizeof_pid_t
         then emit (Log_error ''unable to write to child pipe'') s1
         else s1)"

definition exit_child :: "env \<Rightarrow> c_int \<Rightarrow> manager \<Rightarrow> 'a outcome" where
  "exit_child E status s = Exit status (at_child_exit E s)"

text \<open>
  \<^verbatim>\<open>init_device\<close>: the \<^verbatim>\<open>switch\<close> on the result of \<^verbatim>\<open>fork\<close>. In the child
  (\<open>case 0\<close>) the handler is installed and the bring-up runs: open the device, set the
  link mode and the link policy (a failure is logged; \<^verbatim>\<open>ENETDOWN\<close> of the policy is
  tolerated), bring the device up (\<^verbatim>\<open>EALREADY\<close> is tolerated), query the flags; every
  path of the child ends in \<^verbatim>\<open>exit\<close>, so the child never returns to the caller. In
  the daemon the failure case (\<open>-1\<close>) logs an error and falls through into the default
  case, which logs and returns.
\<close>

definition init_device :: "env \<Rightarrow> hci_defs \<Rightarrow> c_int \<Rightarrow> manager \<Rightarrow> unit outcome" where
  "init_device E K dev_id s =
     (let pid = fork_ret E;
          s1 = emit (Sys_fork dev_id) s
      in if pid = 0
         then
           (let s2 = emit Sys_atexit s1;
                dd = hci_open_dev E dev_id;
                s3 = emit (Call_hci_open_dev dev_id) s2
            in if dd <s 0
               then exit_child E 1 (emit (Log_error ''Can't open device hci%d: %s (%d)'') s3)
               else
                 (let mode = HCISETLINKMODE (ucast dev_id) (ucast (opt_link_mode (main_opts E)));
                      s4 = emit (Sys_ioctl dd mode) s3;
                      s5 = (if fst (sys_ioctl E mode) <s 0
                            then emit (Log_error ''Can't set link mode on hci%d: %s (%d)'') s4
                            else s4);
                      pol = HCISETLINKPOL (ucast dev_id) (ucast (opt_link_policy (main_opts E)));
                      s6 = emit (Sys_ioctl dd pol) s5;
                      s7 = (if fst (sys_ioctl E pol) <s 0 \<and> snd (sys_ioctl E pol) \<noteq> ENETDOWN
                            then emit (Log_error ''Can't set link policy on hci%d: %s (%d)'') s6
                            else s6);
                      s8 = emit (Sys_ioctl dd (HCIDEVUP dev_id)) s7
                  in if fst (sys_ioctl E (HCIDEVUP dev_id)) <s 0
                        \<and> snd (sys_ioctl E (HCIDEVUP dev_id)) \<noteq> EALREADY
                     then exit_child E 1
                            (emit (Call_hci_close_dev dd)
                               (emit (Log_error ''Can't init device hci%d: %s (%d)'') s8))
                     else
                       (let s9 = emit (Call_hci_devinfo dev_id) s8
                        in case hci_devinfo E dev_id of
                             None \<Rightarrow> exit_child E 1 (emit (Call_hci_close_dev dd) s9)
                           | Some di \<Rightarrow>
                               if hci_test_bit (HCI_RAW K) (flags di)
                               then exit_child E 0 (emit (Call_hci_close_dev dd) s9)
                               else exit_child E 0 (emit (Call_hci_close_dev dd) s9))))
         else if pid = - 1
         then Return ()
                (emit (Log_debug ''child %d forked'')
                   (emit (Log_error ''Fork failed. Can't init device hci%d: %s (%d)'') s1))
         else Return () (emit (Log_debug ''child %d forked'') s1))"

definition device_devreg_setup :: "env \<Rightarrow> hci_defs \<Rightarrow> c_int \<Rightarrow> manager \<Rightarrow> unit outcome" where
  "device_devreg_setup E K dev_id s =
     (case init_device E K dev_id s of
        Exit status s' \<Rightarrow> Exit status s'
      | Return u s1 \<Rightarrow>
          (let s2 = emit (Call_hci_devinfo dev_id) s1
           in case hci_devinfo E dev_id of
                None \<Rightarrow> Return () s2
              | Some di \<Rightarrow>
                  (let up = hci_test_bit (HCI_UP K) (flags di)
                   in if \<not> hci_test_bit (HCI_RAW K) (flags di)
                      then Return () (snd (manager_register_adapter E dev_id up s2))
                      else Return () s2)))"

definition device_devup_setup :: "env \<Rightarrow> hci_defs \<Rightarrow> c_int \<Rightarrow> manager \<Rightarrow> manager" where
  "device_devup_setup E K dev_id s =
     (let s1 = configure_device E K dev_id s;
          s2 = emit (Start_security_manager dev_id) s1;
          (ret, s3) = manager_start_adapter E dev_id s2
      in if ret = 1 then emit (Stop_security_manager dev_id) s3 else s3)"

definition device_event ::
  "env \<Rightarrow> hci_defs \<Rightarrow> c_int \<Rightarrow> c_int \<Rightarrow> manager \<Rightarrow> unit outcome" where
  "device_event E K event dev_id s =
     (let s0 = emit (Call_device_event event dev_id) s in
      if event = HCI_DEV_REG K
      then device_devreg_setup E K dev_id (emit (Log_info ''HCI dev %d registered'') s0)
      else if event = HCI_DEV_UNREG K
      then Return () (snd (manager_unregister_adapter E dev_id
                             (emit (Log_info ''HCI dev %d unregistered'') s0)))
      else if event = HCI_DEV_UP K
      then Return () (device_devup_setup E K dev_id (emit (Log_info ''HCI dev %d up'') s0))
      else if event = HCI_DEV_DOWN K
      then Return ()
             (emit (Stop_security_manager dev_id)
                (snd (manager_stop_adapter E dev_id (emit (Log_info ''HCI dev %d down'') s0))))
      else Return () s0)"

text \<open>
  \<^verbatim>\<open>io_stack_event\<close>. The buffer is an automatic array that is not initialised:
  \<open>stale\<close> is what its bytes hold before the read, and the read overwrites the first
  \<open>len\<close> of them. The handler never looks at \<open>len\<close>. The packed structures are
  read in place: \<^verbatim>\<open>hci_event_hdr\<close> (\<^verbatim>\<open>evt\<close>, \<^verbatim>\<open>plen\<close>: one byte each) after the
  type byte, \<^verbatim>\<open>evt_stack_internal\<close> (a 16-bit \<^verbatim>\<open>type\<close>, then the data) after the
  header, and \<^verbatim>\<open>evt_si_device\<close> (16-bit \<^verbatim>\<open>event\<close> and \<^verbatim>\<open>dev_id\<close>) as the
  data; the 16-bit fields are in host order, little-endian here.
\<close>

datatype GIOError = G_IO_ERROR_AGAIN | G_IO_ERROR_INVAL | G_IO_ERROR_UNKNOWN

datatype read_result = Read_failed GIOError | Read_bytes "uint8_t list"

definition host16 :: "uint8_t \<Rightarrow> uint8_t \<Rightarrow> uint16_t" where
  "host16 lo hi = ucast lo OR push_bit 8 (ucast hi)"

definition buf_after_read :: "(nat \<Rightarrow> uint8_t) \<Rightarrow> uint8_t list \<Rightarrow> nat \<Rightarrow> uint8_t" where
  "buf_after_read stale bytes i = (if i < length bytes then bytes ! i else stale i)"

definition io_stack_event ::
  "env \<Rightarrow> hci_defs \<Rightarrow> (nat \<Rightarrow> uint8_t) \<Rightarrow> read_result \<Rightarrow> manager \<Rightarrow> bool outcome" where
  "io_stack_event E K stale rd s =
     (case rd of
        Read_failed err \<Rightarrow>
          if err = G_IO_ERROR_AGAIN then Return True s
          else Return False
                 (emit (Log_error ''Read from control socket failed: %s (%d)'') s)
      | Read_bytes bytes \<Rightarrow>
          (let buf = buf_after_read stale bytes;
               type = (ucast (buf 0) :: c_int)
           in if type \<noteq> HCI_EVENT_PKT K then Return True s
              else if (ucast (buf 1) :: c_int) \<noteq> EVT_STACK_INTERNAL K then Return True s
              else
                (let p = 1 + HCI_EVENT_HDR_SIZE K;
                     si_type = host16 (buf p) (buf (p + 1))
                 in if (ucast si_type :: c_int) = EVT_SI_DEVICE K
                    then (case device_event E K
                                 (ucast (host16 (buf (p + 2)) (buf (p + 3))))
                                 (ucast (host16 (buf (p + 4)) (buf (p + 5)))) s of
                            Exit status s' \<Rightarrow> Exit status s'
                          | Return u s' \<Rightarrow> Return True s')
                    else Return True s)))"

section \<open>Observations on states and traces\<close>

fun is_security :: "effect \<Rightarrow> bool" where
  "is_security (Start_security_manager d) = True"
| "is_security (Stop_security_manager d) = True"
| "is_security e = False"

fun is_dispatch :: "effect \<Rightarrow> bool" where
  "is_dispatch (Call_device_event ev d) = True"
| "is_dispatch e = False"

fun is_default_changed :: "effect \<Rightarrow> bool" where
  "is_default_changed (Signal_DefaultAdapterChanged a) = True"
| "is_default_changed e = False"

text \<open>
  A \<^verbatim>\<open>waitpid\<close> does not block when its options have the \<^verbatim>\<open>WNOHANG\<close> bit; \<open>w\<close>
  is the value of \<^verbatim>\<open>WNOHANG\<close> (\<^verbatim>\<open>sys/wait.h\<close>; 1 on Linux).
\<close>

fun wait_nonblocking :: "c_int \<Rightarrow> effect \<Rightarrow> bool" where
  "wait_nonblocking w (Sys_waitpid pid options) = (options AND w \<noteq> 0)"
| "wait_nonblocking w e = True"

text \<open>The device ids listed by the registry, in list order.\<close>

definition listed_ids :: "manager \<Rightarrow> uint16_t list" where
  "listed_ids s = map adapter_get_dev_id (adapters s)"

text \<open>
  The default adapter is "none" when \<^verbatim>\<open>default_adapter_id\<close> is negative (it starts as
  \<open>-1\<close>, and the code tests \<^verbatim>\<open>default_adapter_id < 0\<close>); otherwise it names the
  adapter whose device id, promoted to \<^verbatim>\<open>int\<close>, it equals.
\<close>

definition names_registered :: "btd_adapter list \<Rightarrow> c_int \<Rightarrow> bool" where
  "names_registered as d = list_ex (\<lambda>a. ucast (adapter_get_dev_id a) = d) as"

definition default_names_registered :: "manager \<Rightarrow> bool" where
  "default_names_registered s =
     (default_adapter_id s <s 0 \<or> names_registered (adapters s) (default_adapter_id s))"

section \<open>Sequences of registry calls\<close>

text \<open>
  A sequence of \<open>register\<close> and \<open>unregister\<close> calls; each call comes with the
  environment's answers during that call. The run returns the codes of the calls, in
  order, and the final state.
\<close>

datatype reg_call = Register c_int bool | Unregister c_int

fun reg_call_step :: "env \<Rightarrow> reg_call \<Rightarrow> manager \<Rightarrow> c_int \<times> manager" where
  "reg_call_step E (Register i up) s = manager_register_adapter E i up s"
| "reg_call_step E (Unregister i) s = manager_unregister_adapter E i s"

fun run_reg_calls :: "(env \<times> reg_call) list \<Rightarrow> manager \<Rightarrow> c_int list \<times> manager" where
  "run_reg_calls [] s = ([], s)"
| "run_reg_calls ((E, c) # cs) s =
     (let (r, s1) = reg_call_step E c s;
          (rs, s2) = run_reg_calls cs s1
      in (r # rs, s2))"

text \<open>
  The listing in the words of the specification: the device ids of the \<open>register\<close>
  calls that count, without an \<open>unregister\<close> of the same device id later in the
  sequence, in the order of the \<open>register\<close> calls. Each call is paired with whether it
  counts as a registration.
\<close>

fun is_unregister_of :: "uint16_t \<Rightarrow> reg_call \<Rightarrow> bool" where
  "is_unregister_of d (Unregister i) = (ucast i = d)"
| "is_unregister_of d (Register i up) = False"

definition unregistered_later :: "uint16_t \<Rightarrow> reg_call list \<Rightarrow> bool" where
  "unregistered_later d cs = list_ex (is_unregister_of d) cs"

fun listing_of :: "(reg_call \<times> bool) list \<Rightarrow> uint16_t list" where
  "listing_of [] = []"
| "listing_of ((Register i up, counts) # cs) =
     (if counts \<and> \<not> unregistered_later (ucast i) (map fst cs) then [ucast i] else [])
     @ listing_of cs"
| "listing_of ((Unregister i, counts) # cs) = listing_of cs"

text \<open>Every \<open>register\<close> call that has occurred counts.\<close>

definition listing_of_calls :: "reg_call list \<Rightarrow> uint16_t list" where
  "listing_of_calls cs = listing_of (map (\<lambda>c. (c, True)) cs)"

text \<open>Only the \<open>register\<close> calls that returned 0 count.\<close>

definition listing_of_results :: "reg_call list \<Rightarrow> c_int list \<Rightarrow> uint16_t list" where
  "listing_of_results cs rs = listing_of (zip cs (map (\<lambda>r. r = 0) rs))"

text \<open>
  A \<open>register\<close> call counts when \<^verbatim>\<open>adapter_create\<close> succeeds for it in the
  environment of the call.
\<close>

fun creation_succeeds :: "env \<Rightarrow> reg_call \<Rightarrow> bool" where
  "creation_succeeds E (Register i up) = adapter_create_ok E i up"
| "creation_succeeds E (Unregister i) = True"

definition listing_of_created :: "(env \<times> reg_call) list \<Rightarrow> uint16_t list" where
  "listing_of_created ops = listing_of (map (\<lambda>(E, c). (c, creation_succeeds E c)) ops)"

fun registered_ids :: "reg_call list \<Rightarrow> uint16_t list" where
  "registered_ids [] = []"
| "registered_ids (Register i up # cs) = ucast i # registered_ids cs"
| "registered_ids (Unregister i # cs) = registered_ids cs"

text \<open>
  The five operations of the registry, as the functions of \<^verbatim>\<open>manager.c\<close>:
  \<open>register\<close>, \<open>unregister\<close>, \<open>mark_up\<close> (\<^verbatim>\<open>manager_start_adapter\<close>), \<open>mark_down\<close>
  (\<^verbatim>\<open>manager_stop_adapter\<close>) and \<open>set_default\<close>.
\<close>

datatype registry_op =
    Op_register c_int bool
  | Op_unregister c_int
  | Op_mark_up c_int
  | Op_mark_down c_int
  | Op_set_default c_int

fun registry_step :: "env \<Rightarrow> registry_op \<Rightarrow> manager \<Rightarrow> manager" where
  "registry_step E (Op_register i up) s = snd (manager_register_adapter E i up s)"
| "registry_step E (Op_unregister i) s = snd (manager_unregister_adapter E i s)"
| "registry_step E (Op_mark_up i) s = snd (manager_start_adapter E i s)"
| "registry_step E (Op_mark_down i) s = snd (manager_stop_adapter E i s)"
| "registry_step E (Op_set_default i) s = manager_set_default_adapter i s"

fun run_ops :: "(env \<times> registry_op) list \<Rightarrow> manager \<Rightarrow> manager" where
  "run_ops [] s = s"
| "run_ops ((E, c) # cs) s = run_ops cs (registry_step E c s)"

text \<open>
  An operation is admissible in a state when the default it may record is "none" or a
  registered adapter: the argument of \<open>set_default\<close>; the answer of
  \<^verbatim>\<open>hci_get_route\<close> when \<open>unregister\<close> re-derives the default, looked up among the
  adapters that remain; and for \<open>mark_up\<close> a device id in the range of \<^verbatim>\<open>uint16_t\<close>.
\<close>

fun op_admissible :: "env \<Rightarrow> registry_op \<Rightarrow> manager \<Rightarrow> bool" where
  "op_admissible E (Op_set_default i) s = (i <s 0 \<or> names_registered (adapters s) i)"
| "op_admissible E (Op_unregister i) s =
     (case manager_find_adapter_by_id s i of
        None \<Rightarrow> True
      | Some a \<Rightarrow>
          if default_adapter_id s = ucast (adapter_get_dev_id a) \<or> default_adapter_id s <s 0
          then hci_get_route E <s 0
               \<or> names_registered (remove1 a (adapters s)) (hci_get_route E)
          else True)"
| "op_admissible E (Op_mark_up i) s = (ucast (ucast i :: uint16_t) = i)"
| "op_admissible E c s = True"

fun admissible_run :: "(env \<times> registry_op) list \<Rightarrow> manager \<Rightarrow> bool" where
  "admissible_run [] s = True"
| "admissible_run ((E, c) # cs) s =
     (op_admissible E c s \<and> admissible_run cs (registry_step E c s))"

section \<open>Sample inputs\<close>

text \<open>
  An environment in which every call succeeds: the devices are down and not raw, no
  configuration flag is set, the system route is "none".
\<close>

definition sample_env :: env where
  "sample_env = \<lparr> fork_ret = 100,
     sys_ioctl = (\<lambda>r. (0, 0)),
     getpid_ret = 100,
     write_ret = 4,
     hci_devinfo = (\<lambda>d. Some \<lparr> flags = 0, bdaddr = 0 \<rparr>),
     hci_open_dev = (\<lambda>d. 3),
     main_opts = \<lparr> opt_flags = 0, opt_name = None, opt_class = 0, opt_scan = 0,
                   opt_pageto = 0, opt_link_mode = 0, opt_link_policy = 0 \<rparr>,
     read_local_class = (\<lambda>b. None),
     get_service_classes = (\<lambda>b. 0),
     adapter_create_ok = (\<lambda>i up. True),
     adapter_start = (\<lambda>a. 0),
     adapter_stop = (\<lambda>a. 0),
     adapter_is_ready = (\<lambda>a. True),
     hci_get_route = - 1,
     read_ret = 4,
     read_pid = 100,
     waitpid_ret = (\<lambda>pid options. pid) \<rparr>"

text \<open>The registry with adapter 0 registered and nominated the default.\<close>

definition one_adapter :: manager where
  "one_adapter = \<lparr> adapters = [\<lparr> adapter_dev_id = 0, adapter_devup = False \<rparr>],
     default_adapter_id = 0, trace = [] \<rparr>"

text \<open>The same with adapter 1 registered after adapter 0.\<close>

definition two_adapters :: manager where
  "two_adapters = \<lparr> adapters = [\<lparr> adapter_dev_id = 0, adapter_devup = False \<rparr>,
                                   \<lparr> adapter_dev_id = 1, adapter_devup = True \<rparr>],
     default_adapter_id = 0, trace = [] \<rparr>"

text \<open>
  A buffer that holds a whole device event frame from an earlier read: event packet,
  internal stack event, device sub-event, \<open>HCI_DEV_REG\<close> of device 0.
\<close>

definition stale_frame :: "nat \<Rightarrow> uint8_t" where
  "stale_frame i = (if i < 9 then [0x04, 0xFD, 6, 1, 0, 1, 0, 0, 0] ! i else 0)"

section \<open>Basic facts about the state\<close>

lemma trace_emit [simp]: "trace (emit e s) = trace s @ [e]"
  and adapters_emit [simp]: "adapters (emit e s) = adapters s"
  and default_emit [simp]: "default_adapter_id (emit e s) = default_adapter_id s"
  by (simp_all add: emit_def)

lemma find_emit [simp]:
  "manager_find_adapter_by_id (emit e s) i = manager_find_adapter_by_id s i"
  by (simp add: manager_find_adapter_by_id_def)

lemma find_adapters_cong:
  "adapters s = adapters t \<Longrightarrow> manager_find_adapter_by_id s i = manager_find_adapter_by_id t i"
  by (simp add: manager_find_adapter_by_id_def)

lemma find_None_iff_ids:
  "manager_find_adapter_by_id s i = None \<longleftrightarrow> ucast i \<notin> set (listed_ids s)"
  by (force simp: manager_find_adapter_by_id_def find_None_iff adapter_id_cmp_def
      image_iff listed_ids_def)

lemma find_SomeD:
  "manager_find_adapter_by_id s i = Some a \<Longrightarrow>
     a \<in> set (adapters s) \<and> adapter_get_dev_id a = ucast i"
  by (auto simp: manager_find_adapter_by_id_def find_Some_iff adapter_id_cmp_def)

lemma find_first_match:
  "find P xs = (case filter P xs of [] \<Rightarrow> None | x # ys \<Rightarrow> Some x)"
  by (induction xs) simp_all

lemma manager_find_first_listed:
  "manager_find_adapter_by_id s i =
     (case [a \<leftarrow> adapters s. adapter_get_dev_id a = ucast i] of
        [] \<Rightarrow> None
      | a # as \<Rightarrow> Some a)"
  by (simp add: manager_find_adapter_by_id_def adapter_id_cmp_def find_first_match)

lemma ucast_dev_id_back:
  "(ucast (ucast (x :: uint16_t) :: c_int) :: uint16_t) = x"
  by (simp add: ucast_up_ucast_id is_up)

lemma take1_filter_distinct:
  "distinct (map f xs) \<Longrightarrow> take 1 [b \<leftarrow> xs. f b = v] = [b \<leftarrow> xs. f b = v]"
proof (induction xs)
  case Nil
  then show ?case by simp
next
  case (Cons x xs)
  show ?case
  proof (cases "f x = v")
    case True
    with Cons.prems have "\<forall>y \<in> set xs. f y \<noteq> v" by (metis distinct.simps(2) imageI list.simps(9) set_map)
    then have "[b \<leftarrow> xs. f b = v] = []" by (simp add: filter_empty_conv)
    with True show ?thesis by simp
  next
    case False
    with Cons show ?thesis by simp
  qed
qed

lemma remove1_filter_distinct:
  "distinct (map f xs) \<Longrightarrow> a \<in> set xs \<Longrightarrow> remove1 a xs = [b \<leftarrow> xs. f b \<noteq> f a]"
proof (induction xs)
  case Nil
  then show ?case by simp
next
  case (Cons x xs)
  show ?case
  proof (cases "a = x")
    case True
    with Cons.prems have "\<forall>y \<in> set xs. f y \<noteq> f x" by (metis distinct.simps(2) imageI list.simps(9) set_map)
    then have "[b \<leftarrow> xs. f b \<noteq> f x] = xs" by (simp add: filter_id_conv)
    with True show ?thesis by simp
  next
    case False
    with Cons.prems have ax: "a \<in> set xs" and dx: "distinct (map f xs)"
      and nx: "f x \<notin> f ` set xs" by auto
    from ax nx have "f x \<noteq> f a" by auto
    with False Cons.IH [OF dx ax] show ?thesis by simp
  qed
qed

lemma set_default_effect:
  "default_adapter_id (manager_set_default_adapter i s) = i"
  "adapters (manager_set_default_adapter i s) = adapters s"
  "trace (manager_set_default_adapter i s) =
     trace s @ map Signal_DefaultAdapterChanged
                 (take 1 [a \<leftarrow> adapters s. adapter_get_dev_id a = ucast i])"
  by (cases "[a \<leftarrow> adapters s. adapter_get_dev_id a = ucast i]";
      simp add: manager_set_default_adapter_def Let_def manager_find_first_listed)+

lemma register_explicit:
  "manager_register_adapter E i up s =
     (if ucast i \<in> set (listed_ids s)
      then (- 1, s\<lparr> trace := trace s
                    @ [Log_error ''Unable to register adapter: hci%d already exist''] \<rparr>)
      else if adapter_create_ok E i up
      then (0, s\<lparr> adapters := adapters s @ [\<lparr> adapter_dev_id = ucast i, adapter_devup = up \<rparr>],
                  trace := trace s @ [Adapter_create i up] \<rparr>)
      else (- 1, s\<lparr> trace := trace s @ [Adapter_create i up] \<rparr>))"
proof (cases "manager_find_adapter_by_id s i")
  case None
  then have "ucast i \<notin> set (listed_ids s)" by (simp add: find_None_iff_ids)
  with None show ?thesis
    by (simp add: manager_register_adapter_def adapter_create_def Let_def emit_def)
next
  case (Some a)
  then have "ucast i \<in> set (listed_ids s)"
    using find_None_iff_ids [of s i] by simp
  with Some show ?thesis
    by (simp add: manager_register_adapter_def emit_def)
qed

section \<open>Registering a device id twice\<close>

text \<open>
  Claim C5. When the device id is already in the registry, \<^verbatim>\<open>manager_register_adapter\<close>
  returns \<open>-1\<close> with the "already exist" error, whatever the up flag and the environment,
  and the adapter collection and the default are what they were: only the error line is
  added to the trace.
\<close>

theorem register_present_rejected:
  assumes "ucast id' \<in> set (listed_ids s)"
  shows "manager_register_adapter E id' up s =
           (- 1, emit (Log_error ''Unable to register adapter: hci%d already exist'') s)
         \<and> adapters (snd (manager_register_adapter E id' up s)) = adapters s
         \<and> default_adapter_id (snd (manager_register_adapter E id' up s)) = default_adapter_id s"
proof -
  from assms obtain a where "manager_find_adapter_by_id s id' = Some a"
    using find_None_iff_ids [of s id'] by (cases "manager_find_adapter_by_id s id'") auto
  then show ?thesis by (simp add: manager_register_adapter_def)
qed

theorem register_present_rejected_witness:
  "manager_register_adapter sample_env 0 False manager_init =
     (0, \<lparr> adapters = [\<lparr> adapter_dev_id = 0, adapter_devup = False \<rparr>],
           default_adapter_id = - 1, trace = [Adapter_create 0 False] \<rparr>)
   \<and> manager_register_adapter sample_env 0 True
         (snd (manager_register_adapter sample_env 0 False manager_init)) =
       (- 1, \<lparr> adapters = [\<lparr> adapter_dev_id = 0, adapter_devup = False \<rparr>],
             default_adapter_id = - 1,
             trace = [Adapter_create 0 False,
                      Log_error ''Unable to register adapter: hci%d already exist''] \<rparr>)"
proof -
  have first: "manager_register_adapter sample_env 0 False manager_init =
     (0, \<lparr> adapters = [\<lparr> adapter_dev_id = 0, adapter_devup = False \<rparr>],
           default_adapter_id = - 1, trace = [Adapter_create 0 False] \<rparr>)"
    by (simp add: manager_register_adapter_def manager_find_adapter_by_id_def
        manager_init_def adapter_create_def sample_env_def emit_def Let_def)
  have h: "ucast (0 :: c_int) \<in>
      set (listed_ids (snd (manager_register_adapter sample_env 0 False manager_init)))"
    by (simp add: first listed_ids_def adapter_get_dev_id_def)
  show ?thesis
    using register_present_rejected [OF h, of sample_env True]
    by (simp add: first emit_def)
qed

section \<open>Setting the default adapter\<close>

text \<open>
  Claim C8. \<^verbatim>\<open>manager_set_default_adapter\<close> records the given id as the default in
  every case, also when no registered adapter has it, and leaves the adapters alone. It
  emits \<open>DefaultAdapterChanged\<close> exactly when an adapter of the list has the id (as a
  \<^verbatim>\<open>uint16_t\<close>) for its device id, once, with the path of the first such adapter;
  when no listed adapter has it, the trace is unchanged.
\<close>

theorem set_default_records_then_notifies:
  "default_adapter_id (manager_set_default_adapter id' s) = id'
   \<and> adapters (manager_set_default_adapter id' s) = adapters s
   \<and> trace (manager_set_default_adapter id' s) =
       trace s @ map Signal_DefaultAdapterChanged
                   (take 1 [a \<leftarrow> adapters s. adapter_get_dev_id a = ucast id'])
   \<and> (trace (manager_set_default_adapter id' s) = trace s) =
       (ucast id' \<notin> set (listed_ids s))"
proof -
  have "([a \<leftarrow> adapters s. adapter_get_dev_id a = ucast id'] = []) =
      (ucast id' \<notin> set (listed_ids s))"
    by (force simp: filter_empty_conv listed_ids_def image_iff)
  then show ?thesis
    by (cases "[a \<leftarrow> adapters s. adapter_get_dev_id a = ucast id']")
      (simp_all add: set_default_effect)
qed

theorem set_default_records_then_notifies_witness:
  "default_adapter_id (manager_set_default_adapter 5 one_adapter) = 5
   \<and> trace (manager_set_default_adapter 5 one_adapter) = []
   \<and> trace (manager_set_default_adapter 5 manager_init) = []
   \<and> trace (manager_set_default_adapter 0 one_adapter) =
       [Signal_DefaultAdapterChanged \<lparr> adapter_dev_id = 0, adapter_devup = False \<rparr>]
   \<and> trace (manager_set_default_adapter 1 two_adapters) =
       [Signal_DefaultAdapterChanged \<lparr> adapter_dev_id = 1, adapter_devup = True \<rparr>]"
  using set_default_records_then_notifies [of 5 one_adapter]
    set_default_records_then_notifies [of 5 manager_init]
    set_default_records_then_notifies [of 0 one_adapter]
    set_default_records_then_notifies [of 1 two_adapters]
  by (simp add: manager_init_def one_adapter_def two_adapters_def adapter_get_dev_id_def)

section \<open>Reaping a child\<close>

text \<open>
  Claim C9, as the code has it. \<^verbatim>\<open>child_exit\<close> asks for one record of
  \<^verbatim>\<open>sizeof(pid_t)\<close> bytes; when the read returns that many bytes it calls
  \<^verbatim>\<open>waitpid\<close> once, for that pid, with options 0, and otherwise it calls no
  \<^verbatim>\<open>waitpid\<close>. Options 0 have no \<^verbatim>\<open>WNOHANG\<close> bit, whatever the value of
  \<^verbatim>\<open>WNOHANG\<close>: the wait is a blocking one.
\<close>

theorem child_exit_reads_then_waits:
  "child_exit E fd s =
     (True, s\<lparr> trace := trace s @
        (if read_ret E = int sizeof_pid_t
         then [Sys_read fd sizeof_pid_t, Sys_waitpid (read_pid E) 0,
               if waitpid_ret E (read_pid E) 0 = read_pid E
               then Log_debug ''child %d exited'' else Log_error ''waitpid(%d) failed'']
         else [Sys_read fd sizeof_pid_t,
               Log_error ''child_exit: unable to read child pid from pipe'']) \<rparr>)
   \<and> \<not> wait_nonblocking w (Sys_waitpid (read_pid E) 0)"
  by (simp add: child_exit_def Let_def emit_def)

theorem child_exit_reads_then_waits_witness:
  "trace (snd (child_exit sample_env 5 manager_init)) =
     [Sys_read 5 4, Sys_waitpid 100 0, Log_debug ''child %d exited'']
   \<and> \<not> wait_nonblocking 1 (Sys_waitpid 100 0)"
  using child_exit_reads_then_waits [of sample_env 5 manager_init 1]
  by (simp add: sample_env_def manager_init_def sizeof_pid_t_def)

text \<open>
  Claim C9 as stated fails: after a full read the handler's wait is not a non-blocking
  one (\<^verbatim>\<open>WNOHANG\<close> is 1).
\<close>

theorem child_exit_blocking_wait_counterexample:
  "\<not> list_all (wait_nonblocking 1) (trace (snd (child_exit sample_env 5 manager_init)))"
  by (simp add: child_exit_def Let_def emit_def sample_env_def manager_init_def
      sizeof_pid_t_def)

section \<open>A down event for an unknown device\<close>

text \<open>
  Claim C10. When the device id of a \<open>HCI_DEV_DOWN\<close> event names no registered adapter,
  \<^verbatim>\<open>manager_stop_adapter\<close> returns \<open>-EINVAL\<close> and only logs; the event leaves the
  adapters and the default as they were, and \<^verbatim>\<open>stop_security_manager\<close> is still
  called for the device, last.
\<close>

theorem down_event_unknown_device:
  assumes ok: "hci_defs_ok K" and nf: "manager_find_adapter_by_id s dev_id = None"
  shows "manager_stop_adapter E dev_id s =
           (- EINVAL, emit (Log_error ''Getting device data failed: hci%d'') s)
         \<and> device_event E K (HCI_DEV_DOWN K) dev_id s =
             Return () (final_state (device_event E K (HCI_DEV_DOWN K) dev_id s))
         \<and> adapters (final_state (device_event E K (HCI_DEV_DOWN K) dev_id s)) = adapters s
         \<and> default_adapter_id (final_state (device_event E K (HCI_DEV_DOWN K) dev_id s))
             = default_adapter_id s
         \<and> trace (final_state (device_event E K (HCI_DEV_DOWN K) dev_id s)) =
             trace s @ [Call_device_event (HCI_DEV_DOWN K) dev_id, Log_info ''HCI dev %d down'',
                        Log_error ''Getting device data failed: hci%d'',
                        Stop_security_manager dev_id]"
proof -
  from ok have d: "HCI_DEV_DOWN K \<noteq> HCI_DEV_REG K" "HCI_DEV_DOWN K \<noteq> HCI_DEV_UNREG K"
    "HCI_DEV_DOWN K \<noteq> HCI_DEV_UP K"
    by (auto simp: hci_defs_ok_def)
  show ?thesis using nf d
    by (simp add: manager_stop_adapter_def device_event_def Let_def)
qed

theorem down_event_unknown_device_witness:
  "hci_defs_ok bluez_defs \<and> manager_find_adapter_by_id one_adapter 7 = None
   \<and> device_event sample_env bluez_defs 4 7 one_adapter =
       Return () (one_adapter\<lparr> trace :=
         [Call_device_event 4 7, Log_info ''HCI dev %d down'',
          Log_error ''Getting device data failed: hci%d'', Stop_security_manager 7] \<rparr>)"
proof -
  have ok: "hci_defs_ok bluez_defs"
    by (simp add: hci_defs_ok_def bluez_defs_def)
  have nf: "manager_find_adapter_by_id one_adapter 7 = None"
    by (simp add: manager_find_adapter_by_id_def one_adapter_def adapter_id_cmp_def
        adapter_get_dev_id_def)
  have dn: "HCI_DEV_DOWN bluez_defs = 4"
    by (simp add: bluez_defs_def)
  have e1: "device_event sample_env bluez_defs 4 7 one_adapter =
      Return () (final_state (device_event sample_env bluez_defs 4 7 one_adapter))"
    using down_event_unknown_device [OF ok nf, of sample_env]
    by (simp add: dn)
  have e2: "final_state (device_event sample_env bluez_defs 4 7 one_adapter) =
      one_adapter\<lparr> trace :=
         [Call_device_event 4 7, Log_info ''HCI dev %d down'',
          Log_error ''Getting device data failed: hci%d'', Stop_security_manager 7] \<rparr>"
    using down_event_unknown_device [OF ok nf, of sample_env]
    by (simp add: dn one_adapter_def)
  from e1 [unfolded e2] ok nf show ?thesis by simp
qed

section \<open>An up event and the security manager\<close>

lemma configure_device_registry:
  "adapters (configure_device E K d s) = adapters s
   \<and> default_adapter_id (configure_device E K d s) = default_adapter_id s
   \<and> filter is_security (trace (configure_device E K d s)) = filter is_security (trace s)"
  by (simp add: configure_device_def Let_def split: option.split prod.split)

lemma set_default_security:
  "filter is_security (trace (manager_set_default_adapter i s)) = filter is_security (trace s)"
  by (simp add: manager_set_default_adapter_def Let_def manager_find_adapter_by_id_def
      split: option.split)

lemma start_adapter_security:
  "filter is_security (trace (snd (manager_start_adapter E i s))) = filter is_security (trace s)"
  by (simp add: manager_start_adapter_def Let_def set_default_security split: option.split)

lemma start_adapter_ret_cong:
  "adapters s = adapters t \<Longrightarrow>
     fst (manager_start_adapter E i s) = fst (manager_start_adapter E i t)"
  by (simp add: manager_start_adapter_def Let_def find_adapters_cong [of s t]
      split: option.split)

lemma start_adapter_ret_forced:
  "(fst (manager_start_adapter E i s) = 1) =
     (case manager_find_adapter_by_id s i of
        None \<Rightarrow> False
      | Some a \<Rightarrow> adapter_start E a = 1)"
  by (auto simp: manager_start_adapter_def Let_def EINVAL_def word_sless_alt
      split: option.split)

text \<open>
  Claim C7. During a \<open>HCI_DEV_UP\<close> event the security manager is called for the device
  with "start" once, and with "stop" right after it (no other call to the security
  manager in between, and none after) exactly when \<^verbatim>\<open>manager_start_adapter\<close> returns
  1, the value that says the device was forced back down; that is the case exactly when
  the adapter is registered and \<^verbatim>\<open>adapter_start\<close> returns 1. Otherwise "start" is the
  only call.
\<close>

theorem up_event_forced_back_down:
  assumes ok: "hci_defs_ok K"
  shows "filter is_security
           (trace (final_state (device_event E K (HCI_DEV_UP K) dev_id s))) =
           filter is_security (trace s) @ Start_security_manager dev_id #
             (if fst (manager_start_adapter E dev_id s) = 1
              then [Stop_security_manager dev_id] else [])
         \<and> device_event E K (HCI_DEV_UP K) dev_id s =
             Return () (final_state (device_event E K (HCI_DEV_UP K) dev_id s))
         \<and> (fst (manager_start_adapter E dev_id s) = 1) =
             (case manager_find_adapter_by_id s dev_id of
                None \<Rightarrow> False
              | Some adapter \<Rightarrow> adapter_start E adapter = 1)"
proof -
  from ok have d: "HCI_DEV_UP K \<noteq> HCI_DEV_REG K" "HCI_DEV_UP K \<noteq> HCI_DEV_UNREG K"
    by (auto simp: hci_defs_ok_def)
  define s0 where
    "s0 = emit (Log_info ''HCI dev %d up'') (emit (Call_device_event (HCI_DEV_UP K) dev_id) s)"
  define s2 where "s2 = emit (Start_security_manager dev_id) (configure_device E K dev_id s0)"
  have ev: "device_event E K (HCI_DEV_UP K) dev_id s =
      Return () (device_devup_setup E K dev_id s0)"
    using d by (simp add: device_event_def Let_def s0_def)
  have ad: "adapters s2 = adapters s"
    by (simp add: s2_def s0_def configure_device_registry)
  have ret: "fst (manager_start_adapter E dev_id s2) = fst (manager_start_adapter E dev_id s)"
    by (rule start_adapter_ret_cong [OF ad])
  have sec2: "filter is_security (trace s2) =
      filter is_security (trace s) @ [Start_security_manager dev_id]"
    by (simp add: s2_def s0_def configure_device_registry)
  have sec3: "filter is_security (trace (snd (manager_start_adapter E dev_id s2))) =
      filter is_security (trace s) @ [Start_security_manager dev_id]"
    by (simp add: start_adapter_security sec2)
  have up: "device_devup_setup E K dev_id s0 =
      (if fst (manager_start_adapter E dev_id s2) = 1
       then emit (Stop_security_manager dev_id) (snd (manager_start_adapter E dev_id s2))
       else snd (manager_start_adapter E dev_id s2))"
    by (simp add: device_devup_setup_def Let_def s2_def split: prod.split)
  show ?thesis
    by (simp add: ev up ret sec3 start_adapter_ret_forced)
qed

theorem up_event_forced_back_down_witness:
  "hci_defs_ok bluez_defs
   \<and> filter is_security
       (trace (final_state (device_event (sample_env\<lparr> adapter_start := \<lambda>a. 1 \<rparr>)
                              bluez_defs 3 0 one_adapter))) =
       [Start_security_manager 0, Stop_security_manager 0]
   \<and> filter is_security
       (trace (final_state (device_event sample_env bluez_defs 3 0 one_adapter))) =
       [Start_security_manager 0]"
proof -
  have ok: "hci_defs_ok bluez_defs"
    by (simp add: hci_defs_ok_def bluez_defs_def)
  have up: "HCI_DEV_UP bluez_defs = 3"
    by (simp add: bluez_defs_def)
  have f: "manager_find_adapter_by_id one_adapter 0 =
      Some \<lparr> adapter_dev_id = 0, adapter_devup = False \<rparr>"
    by (simp add: manager_find_adapter_by_id_def one_adapter_def adapter_id_cmp_def
        adapter_get_dev_id_def)
  have t: "trace one_adapter = []"
    by (simp add: one_adapter_def)
  show ?thesis
    using ok up_event_forced_back_down [OF ok, of "sample_env\<lparr> adapter_start := \<lambda>a. 1 \<rparr>" 0
        one_adapter]
      up_event_forced_back_down [OF ok, of sample_env 0 one_adapter]
    by (simp add: up f t sample_env_def)
qed

section \<open>Decoding a frame\<close>

text \<open>
  Claim C1, as the code has it. When the first byte of the delivered buffer is not the
  event packet tag, or its second byte (the event code of the header) is not the
  internal stack event code, \<^verbatim>\<open>io_stack_event\<close> returns without a dispatch and
  without any change of the state, whatever the buffer held before. The length of the
  read takes no part in the decision.
\<close>

theorem io_stack_event_mismatch_no_dispatch:
  assumes "bytes \<noteq> [] \<and> ucast (bytes ! 0) \<noteq> HCI_EVENT_PKT K
           \<or> 1 < length bytes \<and> ucast (bytes ! 1) \<noteq> EVT_STACK_INTERNAL K"
  shows "io_stack_event E K stale (Read_bytes bytes) s = Return True s"
  using assms by (auto simp: io_stack_event_def Let_def buf_after_read_def)

theorem io_stack_event_mismatch_no_dispatch_witness:
  "io_stack_event sample_env bluez_defs stale_frame (Read_bytes [0x02]) manager_init =
     Return True manager_init
   \<and> io_stack_event sample_env bluez_defs stale_frame (Read_bytes [0x04, 0x0E]) manager_init =
     Return True manager_init"
proof -
  have a: "[0x02 :: uint8_t] \<noteq> [] \<and> ucast ([0x02 :: uint8_t] ! 0) \<noteq> HCI_EVENT_PKT bluez_defs
      \<or> 1 < length [0x02 :: uint8_t]
        \<and> ucast ([0x02 :: uint8_t] ! 1) \<noteq> EVT_STACK_INTERNAL bluez_defs"
    by (simp add: bluez_defs_def)
  have b: "[0x04, 0x0E :: uint8_t] \<noteq> []
        \<and> ucast ([0x04, 0x0E :: uint8_t] ! 0) \<noteq> HCI_EVENT_PKT bluez_defs
      \<or> 1 < length [0x04, 0x0E :: uint8_t]
        \<and> ucast ([0x04, 0x0E :: uint8_t] ! 1) \<noteq> EVT_STACK_INTERNAL bluez_defs"
    by (simp add: bluez_defs_def)
  show ?thesis
    using io_stack_event_mismatch_no_dispatch [OF a, of sample_env stale_frame manager_init]
      io_stack_event_mismatch_no_dispatch [OF b, of sample_env stale_frame manager_init]
    by simp
qed

text \<open>
  Claim C1 as stated fails for a short buffer: a read of two bytes (event packet,
  internal stack event), shorter than the type byte and the header, into a buffer that
  still holds an earlier device event frame is dispatched as that device event.
\<close>

theorem io_stack_event_short_frame_counterexample:
  "length [0x04, 0xFD :: uint8_t] < 1 + HCI_EVENT_HDR_SIZE bluez_defs
   \<and> list_ex is_dispatch
       (trace (final_state (io_stack_event sample_env bluez_defs stale_frame
                              (Read_bytes [0x04, 0xFD]) manager_init)))"
  by (simp add: io_stack_event_def Let_def buf_after_read_def stale_frame_def bluez_defs_def
      host16_def device_event_def device_devreg_setup_def init_device_def sample_env_def
      manager_init_def hci_test_bit_def manager_register_adapter_def adapter_create_def
      manager_find_adapter_by_id_def)

section \<open>A registered event\<close>

lemma init_device_in_daemon:
  assumes "fork_ret E \<noteq> 0"
  shows "init_device E K dev_id s =
     Return () (s\<lparr> trace := trace s @ Sys_fork dev_id #
        (if fork_ret E = - 1
         then [Log_error ''Fork failed. Can't init device hci%d: %s (%d)'']
         else []) @ [Log_debug ''child %d forked''] \<rparr>)"
  using assms by (simp add: init_device_def Let_def emit_def)

text \<open>
  In the child that \<^verbatim>\<open>init_device\<close> forks the event never reaches the registry: the
  process exits inside \<^verbatim>\<open>init_device\<close>, with its copy of the adapters as they were.
\<close>

lemma at_child_exit_adapters [simp]: "adapters (at_child_exit E s) = adapters s"
  by (simp add: at_child_exit_def Let_def)

lemma registered_event_in_child_exits:
  assumes "fork_ret E = 0"
  shows "\<exists>status s'. device_event E K (HCI_DEV_REG K) dev_id s = Exit status s'
           \<and> adapters s' = adapters s"
  using assms
  by (simp add: device_event_def device_devreg_setup_def init_device_def exit_child_def
      Let_def split: option.split)

text \<open>
  Claim C6, as the code has it. In the daemon (\<^verbatim>\<open>fork\<close> does not return 0) a
  \<open>HCI_DEV_REG\<close> event returns, and its effects are, in this order: the \<^verbatim>\<open>fork\<close> of
  the initializer (a failed fork is logged, nothing else changes), the query of the
  device with \<^verbatim>\<open>hci_devinfo\<close>, and then the registration. When the query fails or the
  raw flag of the answer is set, nothing follows the query and the adapters are
  unchanged: register is not called. Otherwise register is called with the device id and
  the up flag of the answer: an id that is listed is refused with the "already exist"
  error; for a fresh id \<^verbatim>\<open>adapter_create\<close> is called with the id and that flag, and
  when it succeeds the adapter with this id and flag is appended to the list.
\<close>

theorem registered_event_spawns_queries_registers:
  assumes "fork_ret E \<noteq> 0"
  shows "device_event E K (HCI_DEV_REG K) dev_id s =
     Return ()
       (s\<lparr> adapters := adapters s @
              (case hci_devinfo E dev_id of
                 None \<Rightarrow> []
               | Some di \<Rightarrow>
                   if \<not> hci_test_bit (HCI_RAW K) (flags di)
                      \<and> ucast dev_id \<notin> set (listed_ids s)
                      \<and> adapter_create_ok E dev_id (hci_test_bit (HCI_UP K) (flags di))
                   then [\<lparr> adapter_dev_id = ucast dev_id,
                           adapter_devup = hci_test_bit (HCI_UP K) (flags di) \<rparr>]
                   else []),
            trace := trace s @
              [Call_device_event (HCI_DEV_REG K) dev_id, Log_info ''HCI dev %d registered'',
               Sys_fork dev_id]
              @ (if fork_ret E = - 1
                 then [Log_error ''Fork failed. Can't init device hci%d: %s (%d)'']
                 else [])
              @ [Log_debug ''child %d forked'', Call_hci_devinfo dev_id]
              @ (case hci_devinfo E dev_id of
                   None \<Rightarrow> []
                 | Some di \<Rightarrow>
                     if hci_test_bit (HCI_RAW K) (flags di) then []
                     else if ucast dev_id \<in> set (listed_ids s)
                     then [Log_error ''Unable to register adapter: hci%d already exist'']
                     else [Adapter_create dev_id (hci_test_bit (HCI_UP K) (flags di))]) \<rparr>)"
  by (simp add: device_event_def device_devreg_setup_def init_device_in_daemon [OF assms]
      register_explicit Let_def emit_def listed_ids_def split: option.split)

theorem registered_event_spawns_queries_registers_witness:
  "fork_ret sample_env \<noteq> 0
   \<and> device_event sample_env bluez_defs 1 0 manager_init =
       Return () \<lparr> adapters = [\<lparr> adapter_dev_id = 0, adapter_devup = False \<rparr>],
                   default_adapter_id = - 1,
                   trace = [Call_device_event 1 0, Log_info ''HCI dev %d registered'',
                            Sys_fork 0, Log_debug ''child %d forked'', Call_hci_devinfo 0,
                            Adapter_create 0 False] \<rparr>
   \<and> device_event (sample_env\<lparr> hci_devinfo := \<lambda>d. Some \<lparr> flags = 256, bdaddr = 0 \<rparr> \<rparr>)
         bluez_defs 1 0 manager_init =
       Return () \<lparr> adapters = [], default_adapter_id = - 1,
                   trace = [Call_device_event 1 0, Log_info ''HCI dev %d registered'',
                            Sys_fork 0, Log_debug ''child %d forked'', Call_hci_devinfo 0] \<rparr>
   \<and> device_event (sample_env\<lparr> hci_devinfo := \<lambda>d. Some \<lparr> flags = 1, bdaddr = 0 \<rparr> \<rparr>)
         bluez_defs 1 0 one_adapter =
       Return () \<lparr> adapters = [\<lparr> adapter_dev_id = 0, adapter_devup = False \<rparr>],
                   default_adapter_id = 0,
                   trace = [Call_device_event 1 0, Log_info ''HCI dev %d registered'',
                            Sys_fork 0, Log_debug ''child %d forked'', Call_hci_devinfo 0,
                            Log_error ''Unable to register adapter: hci%d already exist''] \<rparr>"
proof -
  have f1: "fork_ret sample_env \<noteq> 0"
    by (simp add: sample_env_def)
  have f2: "fork_ret (sample_env\<lparr> hci_devinfo := \<lambda>d. Some \<lparr> flags = 256, bdaddr = 0 \<rparr> \<rparr>) \<noteq> 0"
    by (simp add: sample_env_def)
  have f3: "fork_ret (sample_env\<lparr> hci_devinfo := \<lambda>d. Some \<lparr> flags = 1, bdaddr = 0 \<rparr> \<rparr>) \<noteq> 0"
    by (simp add: sample_env_def)
  have r: "HCI_DEV_REG bluez_defs = 1"
    by (simp add: bluez_defs_def)
  show ?thesis
    using f1 registered_event_spawns_queries_registers [OF f1, of bluez_defs 0 manager_init]
      registered_event_spawns_queries_registers [OF f2, of bluez_defs 0 manager_init]
      registered_event_spawns_queries_registers [OF f3, of bluez_defs 0 one_adapter]
    by (simp add: r sample_env_def manager_init_def one_adapter_def hci_test_bit_def
        bluez_defs_def listed_ids_def adapter_get_dev_id_def)
qed

text \<open>
  Claim C6 as stated fails when the query fails: the zeroed device info has no raw flag,
  and yet the event ends right after the query, in a state that a call of register
  would not leave (a call always adds to the trace).
\<close>

theorem registered_event_query_failure_counterexample:
  "\<not> hci_test_bit (HCI_RAW bluez_defs) 0
   \<and> device_event (sample_env\<lparr> hci_devinfo := \<lambda>d. None \<rparr>) bluez_defs 1 0 manager_init =
       Return () \<lparr> adapters = [], default_adapter_id = - 1,
                   trace = [Call_device_event 1 0, Log_info ''HCI dev %d registered'',
                            Sys_fork 0, Log_debug ''child %d forked'', Call_hci_devinfo 0] \<rparr>
   \<and> snd (manager_register_adapter (sample_env\<lparr> hci_devinfo := \<lambda>d. None \<rparr>) 0
            (hci_test_bit (HCI_UP bluez_defs) 0)
            \<lparr> adapters = [], default_adapter_id = - 1,
              trace = [Call_device_event 1 0, Log_info ''HCI dev %d registered'',
                       Sys_fork 0, Log_debug ''child %d forked'', Call_hci_devinfo 0] \<rparr>)
       \<noteq> \<lparr> adapters = [], default_adapter_id = - 1,
            trace = [Call_device_event 1 0, Log_info ''HCI dev %d registered'',
                     Sys_fork 0, Log_debug ''child %d forked'', Call_hci_devinfo 0] \<rparr>"
  by (simp add: device_event_def device_devreg_setup_def init_device_def Let_def
      sample_env_def manager_init_def hci_test_bit_def manager_register_adapter_def
      adapter_create_def manager_find_adapter_by_id_def emit_def bluez_defs_def)

section \<open>The listing after a sequence of register and unregister calls\<close>

lemma map_remove1_distinct:
  "distinct (map f xs) \<Longrightarrow> a \<in> set xs \<Longrightarrow> map f (remove1 a xs) = filter (\<lambda>d. d \<noteq> f a) (map f xs)"
proof (induction xs)
  case Nil
  then show ?case by simp
next
  case (Cons x xs)
  show ?case
  proof (cases "a = x")
    case True
    with Cons.prems have "f x \<notin> f ` set xs" by simp
    then have "\<forall>y \<in> set xs. f y \<noteq> f x" by (metis imageI)
    then have "filter (\<lambda>d. d \<noteq> f x) (map f xs) = map f xs"
      by (simp add: filter_id_conv)
    with True show ?thesis by simp
  next
    case False
    with Cons.prems have ax: "a \<in> set xs" and dx: "distinct (map f xs)" and nx: "f x \<notin> f ` set xs"
      by auto
    from ax nx have "f x \<noteq> f a" by auto
    with False Cons.IH [OF dx ax] show ?thesis by simp
  qed
qed

lemma listed_ids_emit [simp]: "listed_ids (emit e s) = listed_ids s"
  by (simp add: listed_ids_def)

lemma listed_ids_set_default [simp]: "listed_ids (manager_set_default_adapter i s) = listed_ids s"
  by (simp add: manager_set_default_adapter_def Let_def listed_ids_def split: option.split)

lemma register_listed:
  "listed_ids (snd (manager_register_adapter E i up s)) =
     listed_ids s @ (if fst (manager_register_adapter E i up s) = 0 then [ucast i] else [])"
  by (simp add: manager_register_adapter_def adapter_create_def Let_def listed_ids_def
      adapter_get_dev_id_def split: option.split)

lemma register_ok_fresh:
  "fst (manager_register_adapter E i up s) = 0 \<Longrightarrow> ucast i \<notin> set (listed_ids s)"
  by (simp add: manager_register_adapter_def Let_def find_None_iff_ids [symmetric]
      split: option.splits)

lemma remove_adapter_adapters:
  "adapters (manager_remove_adapter E a s) = remove1 a (adapters s)"
  by (simp add: manager_remove_adapter_def Let_def manager_update_adapters_def
      manager_set_default_adapter_def split: option.split)

lemma unregister_listed:
  assumes "distinct (listed_ids s)"
  shows "listed_ids (snd (manager_unregister_adapter E i s)) =
           filter (\<lambda>d. d \<noteq> ucast i) (listed_ids s)"
proof (cases "manager_find_adapter_by_id s i")
  case None
  then have "ucast i \<notin> set (listed_ids s)" by (simp add: find_None_iff_ids)
  then have "filter (\<lambda>d. d \<noteq> ucast i) (listed_ids s) = listed_ids s"
    by (auto simp: filter_id_conv)
  with None show ?thesis by (simp add: manager_unregister_adapter_def)
next
  case (Some a)
  from find_SomeD [OF Some] have a: "a \<in> set (adapters s)" and ai: "adapter_get_dev_id a = ucast i"
    by simp_all
  from assms have d: "distinct (map adapter_get_dev_id (adapters s))" by (simp add: listed_ids_def)
  from map_remove1_distinct [OF d a] Some ai show ?thesis
    by (simp add: manager_unregister_adapter_def listed_ids_def remove_adapter_adapters)
qed

lemma reg_call_step_distinct:
  assumes "distinct (listed_ids s)"
  shows "distinct (listed_ids (snd (reg_call_step E c s)))"
proof (cases c)
  case (Register i up)
  with assms register_ok_fresh [of E i up s] show ?thesis
    by (auto simp: register_listed)
next
  case (Unregister i)
  with assms show ?thesis by (simp add: unregister_listed)
qed

lemma run_reg_calls_Cons:
  "run_reg_calls ((E, c) # cs) s =
     (fst (reg_call_step E c s) # fst (run_reg_calls cs (snd (reg_call_step E c s))),
      snd (run_reg_calls cs (snd (reg_call_step E c s))))"
  by (simp add: Let_def split: prod.split)

lemma run_reg_calls_length: "length (fst (run_reg_calls ops s)) = length ops"
proof (induction ops arbitrary: s)
  case Nil
  then show ?case by simp
next
  case (Cons x ops)
  obtain E c where x: "x = (E, c)" by (cases x)
  show ?case unfolding x run_reg_calls_Cons by (simp add: Cons.IH)
qed

lemma unregistered_later_simps [simp]:
  "unregistered_later d [] = False"
  "unregistered_later d (Register i up # cs) = unregistered_later d cs"
  "unregistered_later d (Unregister i # cs) = (ucast i = d \<or> unregistered_later d cs)"
  by (simp_all add: unregistered_later_def)

lemma run_reg_calls_listing:
  assumes "distinct (listed_ids s)"
  shows "listed_ids (snd (run_reg_calls ops s)) =
           filter (\<lambda>d. \<not> unregistered_later d (map snd ops)) (listed_ids s)
           @ listing_of_results (map snd ops) (fst (run_reg_calls ops s))"
  using assms
proof (induction ops arbitrary: s)
  case Nil
  then show ?case by (simp add: listing_of_results_def)
next
  case (Cons x ops)
  obtain E c where x: "x = (E, c)" by (cases x)
  define s1 where "s1 = snd (reg_call_step E c s)"
  define r where "r = fst (reg_call_step E c s)"
  define rs where "rs = fst (run_reg_calls ops s1)"
  have run: "run_reg_calls (x # ops) s = (r # rs, snd (run_reg_calls ops s1))"
    unfolding x run_reg_calls_Cons by (simp add: s1_def r_def rs_def)
  have d1: "distinct (listed_ids s1)"
    unfolding s1_def by (rule reg_call_step_distinct [OF Cons.prems])
  have len: "length rs = length ops"
    by (simp add: rs_def run_reg_calls_length)
  have fz: "map fst (zip (map snd ops) (map (\<lambda>r. r = 0) rs)) = map snd ops"
    using len by (simp add: map_fst_zip)
  from Cons.IH [OF d1]
  have ih: "listed_ids (snd (run_reg_calls ops s1)) =
              filter (\<lambda>d. \<not> unregistered_later d (map snd ops)) (listed_ids s1)
              @ listing_of_results (map snd ops) rs" by (simp add: rs_def)
  show ?case
  proof (cases c)
    case (Register i up)
    have l1: "listed_ids s1 = listed_ids s @ (if r = 0 then [ucast i] else [])"
      by (simp add: s1_def r_def Register register_listed)
    show ?thesis
      unfolding run by (simp add: ih x Register l1 listing_of_results_def fz)
  next
    case (Unregister i)
    have l1: "listed_ids s1 = filter (\<lambda>d. d \<noteq> ucast i) (listed_ids s)"
      by (simp add: s1_def Unregister unregister_listed [OF Cons.prems])
    have "filter (\<lambda>d. \<not> unregistered_later d (map snd ops)) (filter (\<lambda>d. d \<noteq> ucast i) (listed_ids s))
        = filter (\<lambda>d. \<not> (ucast i = d \<or> unregistered_later d (map snd ops))) (listed_ids s)"
      by (auto intro: filter_cong)
    then show ?thesis
      unfolding run by (simp add: ih x Unregister l1 listing_of_results_def)
  qed
qed

lemma listing_of_all_succeeded:
  assumes "list_all2 (\<lambda>c r. case c of Register i up \<Rightarrow> r = 0 | Unregister i \<Rightarrow> True) cs rs"
  shows "listing_of_results cs rs = listing_of_calls cs"
  using assms
proof (induction cs rs rule: list_all2_induct)
  case Nil
  then show ?case by (simp add: listing_of_results_def listing_of_calls_def)
next
  case (Cons c cs r rs)
  then have len: "length cs = length rs" by (simp add: list_all2_lengthD)
  have "map fst (zip cs (map (\<lambda>r. r = 0) rs)) = cs" using len by (simp add: map_fst_zip)
  moreover have "map fst (map (\<lambda>c. (c, True)) cs) = cs" by (simp add: comp_def)
  ultimately show ?case using Cons
    by (cases c) (simp_all add: listing_of_results_def listing_of_calls_def)
qed

text \<open>
  When every \<open>register\<close> call of the sequence returns 0, the listing is the one of
  the calls that occurred.
\<close>

lemma listed_adapters_when_every_register_succeeds:
  assumes "list_all2 (\<lambda>c r. case c of Register i up \<Rightarrow> r = 0 | Unregister i \<Rightarrow> True)
             (map snd ops) (fst (run_reg_calls ops manager_init))"
  shows "listed_ids (snd (run_reg_calls ops manager_init)) = listing_of_calls (map snd ops)"
proof -
  have "distinct (listed_ids manager_init)" by (simp add: listed_ids_def manager_init_def)
  from run_reg_calls_listing [OF this, of ops] listing_of_all_succeeded [OF assms]
  show ?thesis by (simp add: listed_ids_def manager_init_def)
qed


lemma register_returns_zero_iff:
  "(fst (manager_register_adapter E i up s) = 0) =
     (ucast i \<notin> set (listed_ids s) \<and> adapter_create_ok E i up)"
  by (simp add: register_explicit)

lemma reg_call_step_listed_subset:
  "set (listed_ids (snd (reg_call_step E c s))) \<subseteq>
     set (listed_ids s) \<union> set (registered_ids [c])"
proof (cases c)
  case (Register i up)
  then show ?thesis by (auto simp: register_listed split: if_splits)
next
  case (Unregister i)
  show ?thesis
  proof (cases "manager_find_adapter_by_id s i")
    case None
    with Unregister show ?thesis by (simp add: manager_unregister_adapter_def)
  next
    case (Some a)
    have "set (remove1 a (adapters s)) \<subseteq> set (adapters s)" by (rule set_remove1_subset)
    with Some Unregister show ?thesis
      by (auto simp: manager_unregister_adapter_def listed_ids_def remove_adapter_adapters)
  qed
qed

lemma listing_of_created_eq_results:
  assumes "distinct (listed_ids s)" and "distinct (registered_ids (map snd ops))"
    and "set (listed_ids s) \<inter> set (registered_ids (map snd ops)) = {}"
  shows "listing_of_results (map snd ops) (fst (run_reg_calls ops s)) = listing_of_created ops"
  using assms
proof (induction ops arbitrary: s)
  case Nil
  then show ?case by (simp add: listing_of_results_def listing_of_created_def)
next
  case (Cons x ops)
  obtain E c where x: "x = (E, c)" by (cases x)
  define s1 where "s1 = snd (reg_call_step E c s)"
  define r where "r = fst (reg_call_step E c s)"
  define rs where "rs = fst (run_reg_calls ops s1)"
  have run: "fst (run_reg_calls (x # ops) s) = r # rs"
    unfolding x run_reg_calls_Cons by (simp add: s1_def r_def rs_def)
  have d1: "distinct (listed_ids s1)"
    unfolding s1_def by (rule reg_call_step_distinct [OF Cons.prems(1)])
  have sub: "set (listed_ids s1) \<subseteq> set (listed_ids s) \<union> set (registered_ids [c])"
    unfolding s1_def by (rule reg_call_step_listed_subset)
  have dr: "distinct (registered_ids (map snd ops))"
    using Cons.prems(2) x by (cases c) simp_all
  have dj: "set (listed_ids s1) \<inter> set (registered_ids (map snd ops)) = {}"
    using sub Cons.prems(2,3) x by (cases c) auto
  have ih: "listing_of_results (map snd ops) rs = listing_of_created ops"
    unfolding rs_def by (rule Cons.IH [OF d1 dr dj])
  have len: "length rs = length ops"
    by (simp add: rs_def run_reg_calls_length)
  have fz: "map fst (zip (map snd ops) (map (\<lambda>r. r = 0) rs)) = map snd ops"
    using len by (simp add: map_fst_zip)
  have fc: "map (fst \<circ> (\<lambda>(E, c). (c, creation_succeeds E c))) ops = map snd ops"
    by (induction ops) auto
  show ?case
  proof (cases c)
    case (Register i up)
    from Cons.prems(3) x Register have fresh: "ucast i \<notin> set (listed_ids s)" by auto
    have r0: "(r = 0) = adapter_create_ok E i up"
      using fresh by (simp add: r_def Register register_returns_zero_iff)
    show ?thesis
      using ih unfolding run
      by (simp add: x Register r0 listing_of_results_def listing_of_created_def fz fc)
  next
    case (Unregister i)
    show ?thesis
      using ih unfolding run
      by (simp add: x Unregister listing_of_results_def listing_of_created_def)
  qed
qed

text \<open>
  Claim C3, as the code has it. After any sequence of \<open>register\<close> and \<open>unregister\<close>
  calls on the empty registry in which the device ids of the \<open>register\<close> calls are
  pairwise distinct, the listed device ids are exactly those of the \<open>register\<close> calls
  whose \<^verbatim>\<open>adapter_create\<close> succeeded and that have no \<open>unregister\<close> of the same
  device id after them, in the order of these \<open>register\<close> calls. Only a \<open>register\<close>
  call whose \<^verbatim>\<open>adapter_create\<close> failed (it returned \<open>-1\<close>) lists nothing.
\<close>

theorem listed_adapters_are_created_registrations:
  assumes "distinct (registered_ids (map snd ops))"
  shows "listed_ids (snd (run_reg_calls ops manager_init)) = listing_of_created ops"
proof -
  have e: "listed_ids manager_init = []"
    by (simp add: listed_ids_def manager_init_def)
  then have d: "distinct (listed_ids manager_init)"
    and j: "set (listed_ids manager_init) \<inter> set (registered_ids (map snd ops)) = {}"
    by simp_all
  from run_reg_calls_listing [OF d, of ops] listing_of_created_eq_results [OF d assms j]
  show ?thesis by (simp add: e)
qed

theorem listed_adapters_are_created_registrations_witness:
  "distinct (registered_ids (map snd
     [(sample_env, Register 0 False), (sample_env, Register 1 True),
      (sample_env\<lparr> adapter_create_ok := \<lambda>i up. False \<rparr>, Register 2 False),
      (sample_env, Register 3 False), (sample_env, Unregister 0)]))
   \<and> listed_ids (snd (run_reg_calls
     [(sample_env, Register 0 False), (sample_env, Register 1 True),
      (sample_env\<lparr> adapter_create_ok := \<lambda>i up. False \<rparr>, Register 2 False),
      (sample_env, Register 3 False), (sample_env, Unregister 0)] manager_init)) = [1, 3]"
proof -
  have h: "distinct (registered_ids (map snd
     [(sample_env, Register 0 False), (sample_env, Register 1 True),
      (sample_env\<lparr> adapter_create_ok := \<lambda>i up. False \<rparr>, Register 2 False),
      (sample_env, Register 3 False), (sample_env, Unregister 0)]))"
    by simp
  have "listing_of_created
     [(sample_env, Register 0 False), (sample_env, Register 1 True),
      (sample_env\<lparr> adapter_create_ok := \<lambda>i up. False \<rparr>, Register 2 False),
      (sample_env, Register 3 False), (sample_env, Unregister 0)] = [1, 3]"
    by (simp add: listing_of_created_def sample_env_def unregistered_later_def)
  with h listed_adapters_are_created_registrations [OF h] show ?thesis
    by (simp only: simp_thms)
qed

text \<open>
  Claim C3 as stated fails when \<^verbatim>\<open>adapter_create\<close> fails: the \<open>register\<close> call has
  occurred, no \<open>unregister\<close> follows, and the registry lists nothing.
\<close>

theorem listed_adapters_creation_failure_counterexample:
  "distinct (registered_ids [Register 0 False])
   \<and> listed_ids (snd (run_reg_calls
        [(sample_env\<lparr> adapter_create_ok := \<lambda>i up. False \<rparr>, Register 0 False)] manager_init))
       \<noteq> listing_of_calls [Register 0 False]"
  by (simp add: listing_of_calls_def listed_ids_def manager_register_adapter_def
      adapter_create_def manager_find_adapter_by_id_def manager_init_def sample_env_def Let_def)

section \<open>Unregistering the default adapter\<close>

text \<open>
  Claim C2, as the code has it. In a registry with pairwise distinct device ids, when
  \<open>unregister\<close> is called for the device id that is the current default, the call
  returns 0, the adapter with that id leaves the list, and the default afterwards is
  the answer of \<^verbatim>\<open>hci_get_route\<close> (a negative answer is "none").
  \<open>DefaultAdapterChanged\<close> is emitted exactly when the answer, converted to
  \<^verbatim>\<open>uint16_t\<close>, is the device id of an adapter that is still listed after the
  removal, once and with that adapter's path; for an answer in the range of
  \<^verbatim>\<open>uint16_t\<close> that is exactly when the new default names a registered adapter. An
  emitted notification means that the new default differs from the previous one; the
  converse does not hold.
\<close>

theorem unregister_default_rederived:
  assumes p: "ucast id' \<in> set (listed_ids s)"
    and d: "default_adapter_id s = ucast (ucast id' :: uint16_t)"
    and u: "distinct (listed_ids s)"
  shows "fst (manager_unregister_adapter E id' s) = 0
   \<and> default_adapter_id (snd (manager_unregister_adapter E id' s)) = hci_get_route E
   \<and> adapters (snd (manager_unregister_adapter E id' s)) =
       [b \<leftarrow> adapters s. adapter_get_dev_id b \<noteq> ucast id']
   \<and> filter is_default_changed (trace (snd (manager_unregister_adapter E id' s))) =
       filter is_default_changed (trace s) @
         map Signal_DefaultAdapterChanged
           [b \<leftarrow> adapters (snd (manager_unregister_adapter E id' s)).
              adapter_get_dev_id b = ucast (hci_get_route E)]
   \<and> (filter is_default_changed (trace (snd (manager_unregister_adapter E id' s))) =
        filter is_default_changed (trace s)) =
       (ucast (hci_get_route E) \<notin> set (listed_ids (snd (manager_unregister_adapter E id' s))))
   \<and> (ucast (hci_get_route E) \<in> set (listed_ids (snd (manager_unregister_adapter E id' s)))
        \<longrightarrow> hci_get_route E \<noteq> default_adapter_id s)
   \<and> (ucast (ucast (hci_get_route E) :: uint16_t) = hci_get_route E \<longrightarrow>
        (ucast (hci_get_route E) \<in> set (listed_ids (snd (manager_unregister_adapter E id' s))))
        = names_registered (adapters (snd (manager_unregister_adapter E id' s)))
            (hci_get_route E))"
proof -
  let ?s' = "snd (manager_unregister_adapter E id' s)"
  let ?rt = "hci_get_route E"
  from p obtain a where f: "manager_find_adapter_by_id s id' = Some a"
    using find_None_iff_ids [of s id'] by (cases "manager_find_adapter_by_id s id'") auto
  from find_SomeD [OF f] have a: "a \<in> set (adapters s)"
    and ai: "adapter_get_dev_id a = ucast id'" by simp_all
  from u have dm: "distinct (map adapter_get_dev_id (adapters s))"
    by (simp add: listed_ids_def)
  have rest: "remove1 a (adapters s) = [b \<leftarrow> adapters s. adapter_get_dev_id b \<noteq> ucast id']"
    using remove1_filter_distinct [OF dm a] by (simp add: ai)
  define t where "t = emit Call_hci_get_route
      (manager_update_adapters E
         ((emit (Log_info ''Unregister path: %s'') s)\<lparr> adapters := remove1 a (adapters s) \<rparr>))"
  have run: "manager_unregister_adapter E id' s =
      (0, emit (Adapter_remove a) (emit (Signal_AdapterRemoved a)
            (manager_set_default_adapter ?rt t)))"
    using f d ai
    by (simp add: manager_unregister_adapter_def manager_remove_adapter_def Let_def
        manager_update_adapters_def t_def)
  have ta: "adapters t = remove1 a (adapters s)"
    by (simp add: t_def manager_update_adapters_def)
  have tt: "filter is_default_changed (trace t) = filter is_default_changed (trace s)"
    by (simp add: t_def manager_update_adapters_def)
  have ad: "adapters ?s' = [b \<leftarrow> adapters s. adapter_get_dev_id b \<noteq> ucast id']"
    by (simp add: run set_default_effect ta rest)
  have dr: "distinct (map adapter_get_dev_id (adapters ?s'))"
    unfolding ad using dm by (rule distinct_map_filter)
  have df: "default_adapter_id ?s' = ?rt"
    by (simp add: run set_default_effect)
  have tr: "filter is_default_changed (trace ?s') =
      filter is_default_changed (trace s) @
        map Signal_DefaultAdapterChanged
          [b \<leftarrow> adapters ?s'. adapter_get_dev_id b = ucast ?rt]"
    using take1_filter_distinct [OF dr, of "ucast ?rt"]
    by (simp add: run set_default_effect tt ta rest ad filter_map comp_def)
  have em: "(filter is_default_changed (trace ?s') = filter is_default_changed (trace s)) =
      (ucast ?rt \<notin> set (listed_ids ?s'))"
    by (force simp: tr filter_empty_conv listed_ids_def image_iff)
  have ne: "?rt \<noteq> default_adapter_id s" if "ucast ?rt \<in> set (listed_ids ?s')"
  proof
    assume eq: "?rt = default_adapter_id s"
    then have "(ucast ?rt :: uint16_t) = ucast id'"
      by (simp add: d ucast_dev_id_back)
    with that show False by (auto simp: listed_ids_def ad)
  qed
  have nm: "(ucast ?rt \<in> set (listed_ids ?s')) = names_registered (adapters ?s') ?rt"
    if "ucast (ucast ?rt :: uint16_t) = ?rt"
  proof
    assume "ucast ?rt \<in> set (listed_ids ?s')"
    then obtain b where b: "b \<in> set (adapters ?s')"
      and bi: "adapter_get_dev_id b = ucast ?rt"
      by (auto simp: listed_ids_def)
    from bi that have "ucast (adapter_get_dev_id b) = ?rt" by simp
    with b show "names_registered (adapters ?s') ?rt"
      by (auto simp: names_registered_def list_ex_iff)
  next
    assume "names_registered (adapters ?s') ?rt"
    then obtain b where b: "b \<in> set (adapters ?s')"
      and bi: "ucast (adapter_get_dev_id b) = ?rt"
      by (auto simp: names_registered_def list_ex_iff)
    from bi have "adapter_get_dev_id b = ucast ?rt"
      using ucast_dev_id_back [of "adapter_get_dev_id b"] by simp
    with b show "ucast ?rt \<in> set (listed_ids ?s')"
      by (force simp: listed_ids_def)
  qed
  have r0: "fst (manager_unregister_adapter E id' s) = 0"
    by (simp add: run)
  from r0 df ad tr em ne nm show ?thesis
    by (intro conjI impI) assumption+
qed

theorem unregister_default_rederived_witness:
  "ucast (0 :: c_int) \<in> set (listed_ids two_adapters)
   \<and> default_adapter_id two_adapters = ucast (ucast (0 :: c_int) :: uint16_t)
   \<and> distinct (listed_ids two_adapters)
   \<and> default_adapter_id
        (snd (manager_unregister_adapter (sample_env\<lparr> hci_get_route := 1 \<rparr>) 0 two_adapters)) = 1
   \<and> adapters
        (snd (manager_unregister_adapter (sample_env\<lparr> hci_get_route := 1 \<rparr>) 0 two_adapters)) =
       [\<lparr> adapter_dev_id = 1, adapter_devup = True \<rparr>]
   \<and> filter is_default_changed
        (trace (snd (manager_unregister_adapter (sample_env\<lparr> hci_get_route := 1 \<rparr>) 0
                       two_adapters))) =
       [Signal_DefaultAdapterChanged \<lparr> adapter_dev_id = 1, adapter_devup = True \<rparr>]"
proof -
  have p: "ucast (0 :: c_int) \<in> set (listed_ids two_adapters)"
    by (simp add: listed_ids_def two_adapters_def adapter_get_dev_id_def)
  have d: "default_adapter_id two_adapters = ucast (ucast (0 :: c_int) :: uint16_t)"
    by (simp add: two_adapters_def)
  have u: "distinct (listed_ids two_adapters)"
    by (simp add: listed_ids_def two_adapters_def adapter_get_dev_id_def)
  have a: "adapters (snd (manager_unregister_adapter (sample_env\<lparr> hci_get_route := 1 \<rparr>) 0
      two_adapters)) = [\<lparr> adapter_dev_id = 1, adapter_devup = True \<rparr>]"
    using unregister_default_rederived [OF p d u, of "sample_env\<lparr> hci_get_route := 1 \<rparr>"]
    by (simp add: two_adapters_def adapter_get_dev_id_def)
  show ?thesis
    using p d u unregister_default_rederived [OF p d u, of "sample_env\<lparr> hci_get_route := 1 \<rparr>"]
    by (simp add: a sample_env_def adapter_get_dev_id_def two_adapters_def)
qed

text \<open>
  Claim C2 as stated fails when the system route is "none": the default changes from
  adapter 0 to "none", and no \<open>DefaultAdapterChanged\<close> is emitted.
\<close>

theorem unregister_default_no_route_counterexample:
  "manager_find_adapter_by_id one_adapter 0 = Some \<lparr> adapter_dev_id = 0, adapter_devup = False \<rparr>
   \<and> default_adapter_id one_adapter = 0
   \<and> default_adapter_id (snd (manager_unregister_adapter sample_env 0 one_adapter))
       \<noteq> default_adapter_id one_adapter
   \<and> \<not> list_ex is_default_changed
         (trace (snd (manager_unregister_adapter sample_env 0 one_adapter)))"
  by (simp add: manager_unregister_adapter_def manager_remove_adapter_def Let_def
      manager_update_adapters_def manager_set_default_adapter_def
      manager_find_adapter_by_id_def one_adapter_def sample_env_def adapter_id_cmp_def
      adapter_get_dev_id_def emit_def)

section \<open>The default adapter over runs of the registry\<close>

lemma names_registered_iff:
  "names_registered as d \<longleftrightarrow> (\<exists>a \<in> set as. ucast (adapter_get_dev_id a) = d)"
  by (simp add: names_registered_def list_ex_iff)

lemma set_default_state:
  "default_adapter_id (manager_set_default_adapter i s) = i"
  "adapters (manager_set_default_adapter i s) = adapters s"
  by (simp_all add: manager_set_default_adapter_def Let_def split: option.split)

lemma registry_step_invariant:
  assumes inv: "default_names_registered s" and adm: "op_admissible E c s"
  shows "default_names_registered (registry_step E c s)"
proof (cases c)
  case (Op_register i up)
  have "adapters (snd (manager_register_adapter E i up s)) = adapters s
        \<or> (\<exists>a. adapters (snd (manager_register_adapter E i up s)) = adapters s @ [a])"
    by (simp add: manager_register_adapter_def Let_def split: option.split)
  moreover have "default_adapter_id (snd (manager_register_adapter E i up s)) = default_adapter_id s"
    by (simp add: manager_register_adapter_def Let_def split: option.split)
  ultimately show ?thesis using inv Op_register
    by (auto simp: default_names_registered_def names_registered_iff)
next
  case (Op_unregister i)
  show ?thesis
  proof (cases "manager_find_adapter_by_id s i")
    case None
    with inv Op_unregister show ?thesis by (simp add: manager_unregister_adapter_def)
  next
    case (Some a)
    let ?s' = "snd (manager_unregister_adapter E i s)"
    have ad: "adapters ?s' = remove1 a (adapters s)"
      using Some by (simp add: manager_unregister_adapter_def remove_adapter_adapters)
    show ?thesis
    proof (cases "default_adapter_id s = ucast (adapter_get_dev_id a) \<or> default_adapter_id s <s 0")
      case True
      then have df: "default_adapter_id ?s' = hci_get_route E"
        using Some
        by (simp add: manager_unregister_adapter_def manager_remove_adapter_def Let_def
            manager_update_adapters_def set_default_state)
      from adm Op_unregister Some True
      have "hci_get_route E <s 0 \<or> names_registered (remove1 a (adapters s)) (hci_get_route E)"
        by simp
      then show ?thesis using Op_unregister
        by (simp add: default_names_registered_def ad df)
    next
      case False
      then have df: "default_adapter_id ?s' = default_adapter_id s"
        using Some
        by (simp add: manager_unregister_adapter_def manager_remove_adapter_def Let_def
            manager_update_adapters_def)
      from inv False obtain b where b: "b \<in> set (adapters s)"
        and bd: "ucast (adapter_get_dev_id b) = default_adapter_id s"
        by (auto simp: default_names_registered_def names_registered_iff)
      from False bd have "b \<noteq> a" by auto
      with b have "b \<in> set (remove1 a (adapters s))" by simp
      with bd show ?thesis using Op_unregister
        by (auto simp: default_names_registered_def names_registered_iff ad df)
    qed
  qed
next
  case (Op_mark_up i)
  show ?thesis
  proof (cases "manager_find_adapter_by_id s i")
    case None
    with inv Op_mark_up show ?thesis
      by (simp add: manager_start_adapter_def default_names_registered_def)
  next
    case (Some a)
    from find_SomeD [OF Some] have a: "a \<in> set (adapters s)"
      and ai: "adapter_get_dev_id a = ucast i" by simp_all
    from adm Op_mark_up have "ucast (adapter_get_dev_id a) = i" by (simp add: ai)
    with a have nm: "names_registered (adapters s) i" by (auto simp: names_registered_iff)
    show ?thesis using inv Op_mark_up Some nm
      by (auto simp: manager_start_adapter_def Let_def default_names_registered_def
          set_default_state)
  qed
next
  case (Op_mark_down i)
  with inv show ?thesis
    by (simp add: manager_stop_adapter_def default_names_registered_def split: option.split)
next
  case (Op_set_default i)
  with adm show ?thesis
    by (simp add: default_names_registered_def set_default_state)
qed

text \<open>
  Claim C4, as the code has it. In every state reached from the empty registry by
  \<open>register\<close>, \<open>unregister\<close>, \<open>mark_up\<close>, \<open>mark_down\<close> and \<open>set_default\<close>
  operations that are all admissible (every \<open>set_default\<close> argument and every system
  route taken as the new default is "none" or a registered adapter, every \<open>mark_up\<close>
  device id is in the range of \<^verbatim>\<open>uint16_t\<close>), the default is "none" or names a
  registered adapter.
\<close>

theorem default_names_registered_adapter:
  assumes "admissible_run ops manager_init"
  shows "default_names_registered (run_ops ops manager_init)"
proof -
  have "default_names_registered s \<Longrightarrow> admissible_run ops s \<Longrightarrow>
          default_names_registered (run_ops ops s)" for s
  proof (induction ops arbitrary: s)
    case Nil
    then show ?case by simp
  next
    case (Cons x ops)
    obtain E c where x: "x = (E, c)" by (cases x)
    from Cons.prems x have adm: "op_admissible E c s"
      and rest: "admissible_run ops (registry_step E c s)" by simp_all
    from registry_step_invariant [OF Cons.prems(1) adm] rest Cons.IH x show ?case by simp
  qed
  moreover have "default_names_registered manager_init"
    by (simp add: default_names_registered_def manager_init_def)
  ultimately show ?thesis using assms by blast
qed

theorem default_names_registered_adapter_witness:
  "admissible_run
     [(sample_env, Op_register 0 False), (sample_env, Op_mark_up 0),
      (sample_env, Op_register 1 True), (sample_env\<lparr> hci_get_route := 1 \<rparr>, Op_unregister 0),
      (sample_env, Op_mark_down 1), (sample_env, Op_set_default 1)] manager_init
   \<and> default_names_registered (run_ops
     [(sample_env, Op_register 0 False), (sample_env, Op_mark_up 0),
      (sample_env, Op_register 1 True), (sample_env\<lparr> hci_get_route := 1 \<rparr>, Op_unregister 0),
      (sample_env, Op_mark_down 1), (sample_env, Op_set_default 1)] manager_init)"
proof -
  have a: "admissible_run
     [(sample_env, Op_register 0 False), (sample_env, Op_mark_up 0),
      (sample_env, Op_register 1 True), (sample_env\<lparr> hci_get_route := 1 \<rparr>, Op_unregister 0),
      (sample_env, Op_mark_down 1), (sample_env, Op_set_default 1)] manager_init"
    by (simp add: manager_register_adapter_def manager_unregister_adapter_def
        manager_start_adapter_def manager_stop_adapter_def manager_remove_adapter_def
        manager_update_adapters_def manager_set_default_adapter_def
        manager_find_adapter_by_id_def adapter_create_def adapter_id_cmp_def
        adapter_get_dev_id_def names_registered_def manager_init_def sample_env_def
        emit_def Let_def word_sless_alt)
  show ?thesis
    using a default_names_registered_adapter [OF a] by simp
qed

text \<open>
  Claim C4 as stated fails: \<open>set_default\<close> records a device id that no registered
  adapter has.
\<close>

theorem default_unregistered_counterexample:
  "\<not> default_names_registered (run_ops [(sample_env, Op_set_default 5)] manager_init)"
  by (simp add: default_names_registered_def manager_set_default_adapter_def Let_def
      manager_find_adapter_by_id_def manager_init_def names_registered_def word_sless_alt)


end
